theory Spec2Isabelle
  imports Complex_Main "HOL-Library.Product_Lexorder" "HOL-Library.Sublist"
begin

section \<open>Data model of gains.py\<close>

text \<open>
  The Python classes \<^verbatim>\<open>StockOption\<close>, \<^verbatim>\<open>StockTrade\<close>, \<^verbatim>\<open>TradePair\<close> and
  \<^verbatim>\<open>StockTrades\<close> become records. A \<^verbatim>\<open>datetime.date\<close> is its proleptic Gregorian
  ordinal (\<^verbatim>\<open>date.toordinal()\<close>), an \<^verbatim>\<open>int\<close> is an \<open>int\<close>. A \<^verbatim>\<open>Decimal\<close> is the rational
  number it denotes, and it is a finite number: the price setter compares its argument
  with 0, which raises for a NaN, so that no NaN is ever stored; the special value
  \<^verbatim>\<open>Infinity\<close> is not represented. The arithmetic on \<^verbatim>\<open>Decimal\<close> is that of the default
  context, modelled below: every operation rounds its exact result to 28 significant
  digits and raises \<^verbatim>\<open>decimal.Overflow\<close> when the rounded result is too large. Trades are
  modelled as the CSV readers leave them: every attribute that \<^verbatim>\<open>get_trade\<close> assigns
  holds a value; \<^verbatim>\<open>trade_type\<close> stays optional because only one of the readers sets it.
  The security type is one of the two strings the setter admits.
\<close>

datatype error =
  AssertionError | ValueError string | OverflowError | IndexError
  | DivisionByZero | InvalidOperation | DecimalOverflow

datatype security = stock | option_security

record StockOption =
  opt_symbol :: string
  strike :: rat
  opt_type :: string
  opt_date :: int

record StockTrade =
  row :: "(string \<times> string) list"
  symbol :: string
  security_type :: security
  date :: int
  quantity :: int
  trade_type :: "string option"
  price :: rat
  option :: "StockOption option"
  fake :: bool

record TradePair =
  t1 :: StockTrade
  t2 :: StockTrade
  pair_symbol :: string
  pair_security_type :: security
  pair_quantity :: int
  date1 :: int
  date2 :: int
  profit :: rat
  pair_fake :: bool
  short :: bool

subsection \<open>The decimal context\<close>

text \<open>
  The module uses the default context of \<^verbatim>\<open>decimal\<close>: precision 28, rounding
  \<^verbatim>\<open>ROUND_HALF_EVEN\<close>, \<^verbatim>\<open>Emax = 999999\<close>, \<^verbatim>\<open>Emin = -999999\<close>, and the traps
  \<^verbatim>\<open>InvalidOperation\<close>, \<^verbatim>\<open>DivisionByZero\<close> and \<^verbatim>\<open>Overflow\<close>. An arithmetic operation
  (\<^verbatim>\<open>int * Decimal\<close>, \<^verbatim>\<open>Decimal + Decimal\<close>, \<^verbatim>\<open>- Decimal\<close>, \<^verbatim>\<open>Decimal / int\<close>) computes the exact
  result and rounds it to the context.

  \<open>digits n\<close> is the number of decimal digits of \<open>n\<close>, \<open>pow10 z\<close> the power of ten with
  an integer exponent, and \<open>adjusted x\<close> the exponent of the leading digit of \<open>x\<close>
  (\<^verbatim>\<open>Decimal.adjusted()\<close>): \<open>pow10 (adjusted x) \<le> \<bar>x\<bar> < pow10 (adjusted x + 1)\<close>.
\<close>

function digits :: "int \<Rightarrow> int" where
  "digits n = (if n < 10 then 1 else 1 + digits (n div 10))"
  by pat_completeness auto
termination
  by (relation "measure nat") auto

declare digits.simps [simp del]

definition pow10 :: "int \<Rightarrow> rat" where
  "pow10 z = (if 0 \<le> z then 10 ^ nat z else 1 / 10 ^ nat (- z))"

definition adjusted :: "rat \<Rightarrow> int" where
  "adjusted x =
     (let m = \<bar>x\<bar> in
      if 1 \<le> m then digits \<lfloor>m\<rfloor> - 1
      else - digits (\<lceil>1 / m\<rceil> - 1))"

text \<open>Rounding to the nearest integer, a tie to the even one.\<close>

definition round_half_even :: "rat \<Rightarrow> int" where
  "round_half_even y =
     (let f = \<lfloor>y\<rfloor>; d = y - of_int f in
      if d < 1 / 2 then f else if 1 / 2 < d then f + 1 else if even f then f else f + 1)"

definition Emax :: int where
  "Emax = 999999"

definition prec :: int where
  "prec = 28"

text \<open>\<^verbatim>\<open>Context.Etiny()\<close>, the least exponent of a digit: \<^verbatim>\<open>Emin - prec + 1\<close>.\<close>

definition Etiny :: int where
  "Etiny = - Emax - prec + 1"

text \<open>
  The rounding of an exact result: to a multiple of the power of ten that leaves 28
  significant digits, and for a subnormal result to a multiple of \<open>pow10 Etiny\<close>
  (\<^verbatim>\<open>Underflow\<close> is not trapped, a result that small is rounded, possibly to zero). When
  the exponent of the leading digit of the rounded result exceeds \<open>Emax\<close> the operation
  raises \<^verbatim>\<open>decimal.Overflow\<close>.
\<close>

definition ctx_round :: "rat \<Rightarrow> rat" where
  "ctx_round x =
     (if x = 0 then 0
      else let q = pow10 (max (adjusted x - (prec - 1)) Etiny)
           in of_int (round_half_even (x / q)) * q)"

definition dec_fix :: "rat \<Rightarrow> error + rat" where
  "dec_fix x =
     (let y = ctx_round x in
      if y \<noteq> 0 \<and> Emax < adjusted y then Inl DecimalOverflow else Inr y)"

subsection \<open>Property setters of StockTrade\<close>

text \<open>
  \<^verbatim>\<open>str.upper()\<close> on the ASCII letters; the ticker symbols of the readers are ASCII.
\<close>

definition upper_char :: "char \<Rightarrow> char" where
  "upper_char c =
     (if 97 \<le> (of_char c :: nat) \<and> (of_char c :: nat) \<le> 122
      then char_of ((of_char c :: nat) - 32) else c)"

definition upper :: "string \<Rightarrow> string" where
  "upper s = map upper_char s"

text \<open>The class attribute \<^verbatim>\<open>SYMBOL_ALIAS = {"FB": "META"}\<close>.\<close>

definition SYMBOL_ALIAS :: "string \<rightharpoonup> string" where
  "SYMBOL_ALIAS = [''FB'' \<mapsto> ''META'']"

definition set_symbol :: "string \<Rightarrow> StockTrade \<Rightarrow> StockTrade" where
  "set_symbol v t =
     (let v = upper v;
          v = (case SYMBOL_ALIAS v of Some a \<Rightarrow> a | None \<Rightarrow> v)
      in t\<lparr>symbol := v\<rparr>)"

text \<open>
  The price setter stores the magnitude. The values that the code assigns to a price are
  the quotient that a reader computes, a price that is already stored, and
  \<^verbatim>\<open>Decimal(0)\<close>; each of them is a result of the context or not negative, so that the
  negation \<^verbatim>\<open>-value\<close> of the setter is exact on it (\<open>dec_fix_neg\<close> below).
\<close>

definition set_price :: "rat \<Rightarrow> StockTrade \<Rightarrow> StockTrade" where
  "set_price v t = (let v = (if v < 0 then - v else v) in t\<lparr>price := v\<rparr>)"

text \<open>
  The property \<^verbatim>\<open>amount\<close> is \<^verbatim>\<open>self.quantity*self.price\<close>, an \<^verbatim>\<open>int\<close> times a \<^verbatim>\<open>Decimal\<close>:
  the product rounded to the context.
\<close>

definition amount :: "StockTrade \<Rightarrow> error + rat" where
  "amount t = dec_fix (of_int (quantity t) * price t)"

text \<open>
  Both readers compute the price of a trade from the amount and the quantity of its row,
  \<^verbatim>\<open>trade.price = amount/trade.quantity\<close>, a \<^verbatim>\<open>Decimal\<close> divided by an \<^verbatim>\<open>int\<close>: the
  division raises \<^verbatim>\<open>decimal.DivisionByZero\<close> for the quantity zero, and
  \<^verbatim>\<open>decimal.InvalidOperation\<close> when the amount is zero as well; otherwise the quotient is
  rounded to the context and assigned through the setter.
\<close>

definition reader_price :: "rat \<Rightarrow> int \<Rightarrow> StockTrade \<Rightarrow> error + StockTrade" where
  "reader_price amount' q t =
     (if q = 0 then Inl (if amount' = 0 then InvalidOperation else DivisionByZero)
      else case dec_fix (amount' / of_int q) of
             Inl e \<Rightarrow> Inl e
           | Inr v \<Rightarrow> Inr (set_price v t))"

subsection \<open>StockTrade.copy\<close>

text \<open>
  \<^verbatim>\<open>StockTrade(self.row)\<close> creates a trade whose \<^verbatim>\<open>trade_type\<close> is \<^verbatim>\<open>None\<close> and whose
  \<^verbatim>\<open>fake\<close> is \<^verbatim>\<open>False\<close>; \<^verbatim>\<open>copy\<close> then assigns symbol, security type, date, quantity,
  price and option, the symbol and the price through their setters. Neither
  \<^verbatim>\<open>trade_type\<close> nor \<^verbatim>\<open>fake\<close> is assigned.
\<close>

definition copy :: "StockTrade \<Rightarrow> StockTrade" where
  "copy self =
     (let t = \<lparr>row = row self, symbol = [], security_type = security_type self,
               date = date self, quantity = quantity self, trade_type = None,
               price = 0, option = option self, fake = False\<rparr>;
          t = set_symbol (symbol self) t;
          t = set_price (price self) t
      in t)"

subsection \<open>TradePair\<close>

text \<open>
  \<^verbatim>\<open>date + timedelta(days=n)\<close> raises \<^verbatim>\<open>OverflowError\<close> when the resulting ordinal
  leaves \<^verbatim>\<open>1 .. date.max.toordinal()\<close>, which is 3652059 (9999-12-31).
\<close>

definition MAXORDINAL :: int where
  "MAXORDINAL = 3652059"

definition date_add :: "int \<Rightarrow> int \<Rightarrow> error + int" where
  "date_add d n = (let o' = d + n in if 0 < o' \<and> o' \<le> MAXORDINAL then Inr o' else Inl OverflowError)"

text \<open>
  The expression \<^verbatim>\<open>-(t1.amount + t2.amount)\<close> of the constructor, evaluated from left to
  right: the two amounts, their sum, its negation, each rounded to the context.
\<close>

definition pair_profit :: "StockTrade \<Rightarrow> StockTrade \<Rightarrow> error + rat" where
  "pair_profit a b =
     (case amount a of
        Inl e \<Rightarrow> Inl e
      | Inr x \<Rightarrow>
          (case amount b of
             Inl e \<Rightarrow> Inl e
           | Inr y \<Rightarrow>
               (case dec_fix (x + y) of
                  Inl e \<Rightarrow> Inl e
                | Inr s \<Rightarrow> dec_fix (- s))))"

text \<open>
  The constructor: three assertions, the stable sort of the two trades on the key
  \<^verbatim>\<open>[t.date, -t.quantity]\<close> (lists compare lexicographically), the derived attributes,
  and the holding period test. The profit is computed from the arguments, not from the
  sorted trades, and before the holding period test.
\<close>

definition new_TradePair :: "StockTrade \<Rightarrow> StockTrade \<Rightarrow> error + TradePair" where
  "new_TradePair a b =
     (if \<not> quantity a * quantity b < 0 then Inl AssertionError
      else if symbol a \<noteq> symbol b then Inl AssertionError
      else if security_type a \<noteq> security_type b then Inl AssertionError
      else
        let l = sort_key (\<lambda>t. (date t, - quantity t)) [a, b];
            s1 = l ! 0; s2 = l ! 1
        in case pair_profit a b of
             Inl e \<Rightarrow> Inl e
           | Inr pr \<Rightarrow>
               (case date_add (date s1) 366 of
                  Inl e \<Rightarrow> Inl e
                | Inr threshold \<Rightarrow>
                    Inr \<lparr>t1 = s1, t2 = s2, pair_symbol = symbol s1,
                         pair_security_type = security_type s1,
                         pair_quantity = quantity s1,
                         date1 = date s1, date2 = date s2,
                         profit = pr,
                         pair_fake = (fake s1 \<or> fake s2),
                         short = (date s2 < threshold)\<rparr>))"

subsection \<open>StockTrade.match\<close>

definition match :: "StockTrade \<Rightarrow> StockTrade \<Rightarrow> error + (StockTrade option \<times> TradePair)" where
  "match self trade =
     (let remain_q = quantity self + quantity trade in
      if remain_q \<noteq> 0 then
        if remain_q * quantity self > 0 then
          let remain_trade = copy self;
              a = (copy self)\<lparr>quantity := quantity self - remain_q\<rparr>;
              b = trade;
              remain_trade = remain_trade\<lparr>quantity := remain_q\<rparr>
          in (case new_TradePair a b of Inl e \<Rightarrow> Inl e
              | Inr p \<Rightarrow> Inr (Some remain_trade, p))
        else
          let remain_trade = copy trade;
              a = self;
              b = (copy trade)\<lparr>quantity := quantity trade - remain_q\<rparr>;
              remain_trade = remain_trade\<lparr>quantity := remain_q\<rparr>
          in (case new_TradePair a b of Inl e \<Rightarrow> Inl e
              | Inr p \<Rightarrow> Inr (Some remain_trade, p))
      else
        (case new_TradePair self trade of Inl e \<Rightarrow> Inl e
         | Inr p \<Rightarrow> Inr (None, p)))"

section \<open>The lot matcher: StockTrades.pair_trades\<close>

text \<open>
  \<^verbatim>\<open>str(n)\<close> of an integer, for the messages of the two \<^verbatim>\<open>ValueError\<close>s.
\<close>

definition digit_char :: "nat \<Rightarrow> char" where
  "digit_char d = char_of (48 + d)"

function str_nat :: "nat \<Rightarrow> string" where
  "str_nat n = (if n < 10 then [digit_char n] else str_nat (n div 10) @ [digit_char (n mod 10)])"
  by pat_completeness auto
termination
  by (relation "measure id") auto

definition str_int :: "int \<Rightarrow> string" where
  "str_int i = (if i < 0 then CHR ''-'' # str_nat (nat (- i)) else str_nat (nat i))"

text \<open>
  A \<^verbatim>\<open>queue.Queue\<close> is a list whose head is the front: \<^verbatim>\<open>get\<close> removes the head,
  \<^verbatim>\<open>put\<close> appends at the end. The inner \<^verbatim>\<open>while\<close> loop of the buy branch is
  \<open>match_sell_queue\<close>: it returns what the variable \<^verbatim>\<open>trade\<close> holds when the loop is left
  (\<^verbatim>\<open>None\<close> after a \<^verbatim>\<open>break\<close>), the sell queue and the pairs. \<open>match_buy_queue\<close> is the
  loop of the sell branch.
\<close>

fun match_sell_queue ::
  "StockTrade \<Rightarrow> StockTrade list \<Rightarrow> TradePair list
     \<Rightarrow> error + (StockTrade option \<times> StockTrade list \<times> TradePair list)" where
  "match_sell_queue trade [] pairs = Inr (Some trade, [], pairs)"
| "match_sell_queue trade (st # sq) pairs =
     (case match trade st of
        Inl e \<Rightarrow> Inl e
      | Inr (remain, pair) \<Rightarrow>
          (case remain of
             None \<Rightarrow> Inr (None, sq, pairs @ [pair])
           | Some r \<Rightarrow>
               if quantity r < 0 then Inr (None, sq @ [r], pairs @ [pair])
               else match_sell_queue r sq (pairs @ [pair])))"

fun match_buy_queue ::
  "StockTrade \<Rightarrow> StockTrade list \<Rightarrow> TradePair list
     \<Rightarrow> error + (StockTrade option \<times> StockTrade list \<times> TradePair list)" where
  "match_buy_queue trade [] pairs = Inr (Some trade, [], pairs)"
| "match_buy_queue trade (bt # bq) pairs =
     (case match trade bt of
        Inl e \<Rightarrow> Inl e
      | Inr (remain, pair) \<Rightarrow>
          (case remain of
             None \<Rightarrow> Inr (None, bq, pairs @ [pair])
           | Some r \<Rightarrow>
               if quantity r > 0 then Inr (None, bq @ [r], pairs @ [pair])
               else match_buy_queue r bq (pairs @ [pair])))"

text \<open>The state of the outer loop: buy queue, sell queue and the pairs so far.\<close>

record matcher =
  m_bq :: "StockTrade list"
  m_sq :: "StockTrade list"
  m_pairs :: "TradePair list"

definition put :: "StockTrade option \<Rightarrow> StockTrade list \<Rightarrow> StockTrade list" where
  "put trade q = (case trade of None \<Rightarrow> q | Some t \<Rightarrow> q @ [t])"

text \<open>One iteration of \<^verbatim>\<open>for trade in trades\<close>.\<close>

definition process_trade :: "matcher \<Rightarrow> StockTrade \<Rightarrow> error + matcher" where
  "process_trade m trade =
     (if quantity trade > 0 then
        (case match_sell_queue trade (m_sq m) (m_pairs m) of
           Inl e \<Rightarrow> Inl e
         | Inr (trade', sq', pairs') \<Rightarrow>
             Inr \<lparr>m_bq = put trade' (m_bq m), m_sq = sq', m_pairs = pairs'\<rparr>)
      else
        (case match_buy_queue trade (m_bq m) (m_pairs m) of
           Inl e \<Rightarrow> Inl e
         | Inr (trade', bq', pairs') \<Rightarrow>
             Inr \<lparr>m_bq = bq', m_sq = put trade' (m_sq m), m_pairs = pairs'\<rparr>))"

fun process_trades :: "matcher \<Rightarrow> StockTrade list \<Rightarrow> error + matcher" where
  "process_trades m [] = Inr m"
| "process_trades m (trade # trades) =
     (case process_trade m trade of
        Inl e \<Rightarrow> Inl e
      | Inr m' \<Rightarrow> process_trades m' trades)"

definition empty_matcher :: matcher where
  "empty_matcher = \<lparr>m_bq = [], m_sq = [], m_pairs = []\<rparr>"

definition queue_not_empty :: "nat \<Rightarrow> error" where
  "queue_not_empty n =
     ValueError (''queue not empty, check for missing open/close txns,  initial trades '' @ str_nat n)"

definition pair_trades :: "StockTrade list \<Rightarrow> error + TradePair list" where
  "pair_trades trades =
     (case process_trades empty_matcher trades of
        Inl e \<Rightarrow> Inl e
      | Inr m \<Rightarrow>
          if m_sq m \<noteq> [] \<or> m_bq m \<noteq> [] then Inl (queue_not_empty (length trades))
          else Inr (m_pairs m))"

section \<open>The position ledger: StockTrades\<close>

text \<open>
  \<^verbatim>\<open>opt_trade_map\<close> is a dict, iterated in insertion order: an association list from the
  option id to the trades of that contract. Each trade object belongs to one list and
  occurs there once (the readers create one object per CSV row), so that assigning to an
  attribute of a trade in place is replacing that element of its list.
\<close>

record StockTrades =
  ledger_symbol :: string
  close_options :: bool
  stock_trades :: "StockTrade list"
  opt_trade_map :: "(string \<times> StockTrade list) list"

definition stock_pairs :: "StockTrades \<Rightarrow> error + TradePair list" where
  "stock_pairs self = pair_trades (stock_trades self)"

fun option_pairs_loop ::
  "(string \<times> StockTrade list) list \<Rightarrow> TradePair list \<Rightarrow> error + TradePair list" where
  "option_pairs_loop [] pairs = Inr pairs"
| "option_pairs_loop ((opt_id, trades) # items) pairs =
     (case pair_trades trades of
        Inl e \<Rightarrow> Inl e
      | Inr ps \<Rightarrow> option_pairs_loop items (pairs @ ps))"


subsection \<open>finish: the expired options of unknown direction\<close>

text \<open>
  The first loop of \<^verbatim>\<open>finish\<close>. For one contract, \<open>confusion_sums\<close> is the inner loop
  that adds the quantities up, \<^verbatim>\<open>c_q\<close> for the trades of type \<^verbatim>\<open>'confusion'\<close> and \<^verbatim>\<open>q\<close> for
  the others; \<open>resolve_confusion\<close> is the rest of the loop body, with its two
  \<^verbatim>\<open>continue\<close>s. The \<^verbatim>\<open>print\<close> calls are left out.
\<close>

fun confusion_sums :: "StockTrade list \<Rightarrow> int \<times> int \<Rightarrow> int \<times> int" where
  "confusion_sums [] (c_q, q) = (c_q, q)"
| "confusion_sums (trade # trades) (c_q, q) =
     (if trade_type trade = Some ''confusion''
      then confusion_sums trades (c_q + quantity trade, q)
      else confusion_sums trades (c_q, q + quantity trade))"

definition flip_confusion :: "StockTrade \<Rightarrow> StockTrade" where
  "flip_confusion trade =
     (if trade_type trade = Some ''confusion''
      then trade\<lparr>quantity := - quantity trade\<rparr> else trade)"

definition resolve_confusion :: "StockTrade list \<Rightarrow> StockTrade list" where
  "resolve_confusion trades =
     (case confusion_sums trades (0, 0) of (c_q, q) \<Rightarrow>
        if q = 0 \<and> c_q = 0 then trades
        else if q + c_q = 0 then trades
        else if q - c_q = 0 then map flip_confusion trades
        else trades)"

text \<open>
  The loop over the contracts; the stock trades are sorted again in every iteration.
\<close>

fun resolve_loop ::
  "StockTrade list \<Rightarrow> (string \<times> StockTrade list) list
     \<Rightarrow> StockTrade list \<times> (string \<times> StockTrade list) list" where
  "resolve_loop stocks [] = (stocks, [])"
| "resolve_loop stocks ((opt_id, trades) # items) =
     (case resolve_loop (sort_key date stocks) items of
        (stocks', items') \<Rightarrow> (stocks', (opt_id, resolve_confusion trades) # items'))"

subsection \<open>finish: closing the open options\<close>

text \<open>
  The body of the second loop for one contract: the net quantity, and for a net quantity
  other than zero either the added closing trade (a copy of \<^verbatim>\<open>trades[0]\<close> with the
  quantity, the price, through its setter, and \<^verbatim>\<open>fake\<close> assigned) or the
  \<^verbatim>\<open>ValueError\<close>.
\<close>

fun net_quantity :: "StockTrade list \<Rightarrow> int \<Rightarrow> int" where
  "net_quantity [] q = q"
| "net_quantity (trade # trades) q = net_quantity trades (q + quantity trade)"

definition closing_trade :: "StockTrade \<Rightarrow> int \<Rightarrow> StockTrade" where
  "closing_trade first q =
     (let trade = copy first;
          trade = trade\<lparr>quantity := - q\<rparr>;
          trade = set_price 0 trade;
          trade = trade\<lparr>fake := True\<rparr>
      in trade)"

definition close_group :: "bool \<Rightarrow> string \<Rightarrow> StockTrade list \<Rightarrow> error + StockTrade list" where
  "close_group close_opts opt_id trades =
     (let q = net_quantity trades 0 in
      if q \<noteq> 0 then
        if close_opts then
          (case trades of
             [] \<Rightarrow> Inl IndexError
           | first # _ \<Rightarrow> Inr (trades @ [closing_trade first q]))
        else Inl (ValueError (opt_id @ '' quantity '' @ str_int q @ '' open''))
      else Inr trades)"

fun close_loop ::
  "bool \<Rightarrow> (string \<times> StockTrade list) list \<Rightarrow> error + (string \<times> StockTrade list) list" where
  "close_loop close_opts [] = Inr []"
| "close_loop close_opts ((opt_id, trades) # items) =
     (case close_group close_opts opt_id trades of
        Inl e \<Rightarrow> Inl e
      | Inr trades' \<Rightarrow>
          (case close_loop close_opts items of
             Inl e \<Rightarrow> Inl e
           | Inr items' \<Rightarrow> Inr ((opt_id, trades') # items')))"

text \<open>
  \<^verbatim>\<open>finish\<close>: the stable sort of the stock trades by date, the first loop, the second
  loop. When the second loop raises, the exception leaves \<^verbatim>\<open>finish\<close> and the ledger is
  not used further (\<^verbatim>\<open>StockCsvReader.load\<close> does not catch it).
\<close>

definition finish :: "StockTrades \<Rightarrow> error + StockTrades" where
  "finish self =
     (case resolve_loop (sort_key date (stock_trades self)) (opt_trade_map self) of
        (stocks, items) \<Rightarrow>
          (case close_loop (close_options self) items of
             Inl e \<Rightarrow> Inl e
           | Inr items' \<Rightarrow> Inr (self\<lparr>stock_trades := stocks, opt_trade_map := items'\<rparr>)))"

section \<open>The matcher on a store of trade objects\<close>

text \<open>
  Python trades are objects: \<^verbatim>\<open>copy\<close> creates a new object, an assignment to
  \<^verbatim>\<open>t.quantity\<close> changes the object \<^verbatim>\<open>t\<close> for everyone who holds it, and a
  \<^verbatim>\<open>TradePair\<close> holds its two trades by reference. To state what \<^verbatim>\<open>pair_trades\<close>
  changes, the matcher is given once more over an explicit store: the list of all trade
  objects created so far, a reference being the position of an object in it. A new
  object is added at the end. Every function returns the store, also when it raises.
\<close>

type_synonym ref = nat

type_synonym store = "StockTrade list"

definition copy_obj :: "ref \<Rightarrow> store \<Rightarrow> store \<times> ref" where
  "copy_obj self h = (h @ [copy (h ! self)], length h)"

definition assign_quantity :: "ref \<Rightarrow> int \<Rightarrow> store \<Rightarrow> store" where
  "assign_quantity r q h = h[r := (h ! r)\<lparr>quantity := q\<rparr>]"

record TradePair_obj =
  ref_t1 :: ref
  ref_t2 :: ref
  obj_symbol :: string
  obj_security_type :: security
  obj_quantity :: int
  obj_date1 :: int
  obj_date2 :: int
  obj_profit :: rat
  obj_fake :: bool
  obj_short :: bool

definition new_TradePair_obj :: "store \<Rightarrow> ref \<Rightarrow> ref \<Rightarrow> error + TradePair_obj" where
  "new_TradePair_obj h a b =
     (if \<not> quantity (h ! a) * quantity (h ! b) < 0 then Inl AssertionError
      else if symbol (h ! a) \<noteq> symbol (h ! b) then Inl AssertionError
      else if security_type (h ! a) \<noteq> security_type (h ! b) then Inl AssertionError
      else
        let l = sort_key (\<lambda>r. (date (h ! r), - quantity (h ! r))) [a, b];
            s1 = l ! 0; s2 = l ! 1
        in case pair_profit (h ! a) (h ! b) of
             Inl e \<Rightarrow> Inl e
           | Inr pr \<Rightarrow>
               (case date_add (date (h ! s1)) 366 of
                  Inl e \<Rightarrow> Inl e
                | Inr threshold \<Rightarrow>
                    Inr \<lparr>ref_t1 = s1, ref_t2 = s2, obj_symbol = symbol (h ! s1),
                         obj_security_type = security_type (h ! s1),
                         obj_quantity = quantity (h ! s1),
                         obj_date1 = date (h ! s1), obj_date2 = date (h ! s2),
                         obj_profit = pr,
                         obj_fake = (fake (h ! s1) \<or> fake (h ! s2)),
                         obj_short = (date (h ! s2) < threshold)\<rparr>))"

definition match_obj ::
  "store \<Rightarrow> ref \<Rightarrow> ref \<Rightarrow> store \<times> (error + (ref option \<times> TradePair_obj))" where
  "match_obj h self trade =
     (let remain_q = quantity (h ! self) + quantity (h ! trade) in
      if remain_q \<noteq> 0 then
        if remain_q * quantity (h ! self) > 0 then
          let (h, remain_trade) = copy_obj self h;
              (h, a) = copy_obj self h;
              h = assign_quantity a (quantity (h ! self) - remain_q) h;
              b = trade;
              h = assign_quantity remain_trade remain_q h
          in (h, case new_TradePair_obj h a b of Inl e \<Rightarrow> Inl e
                 | Inr p \<Rightarrow> Inr (Some remain_trade, p))
        else
          let (h, remain_trade) = copy_obj trade h;
              a = self;
              (h, b) = copy_obj trade h;
              h = assign_quantity b (quantity (h ! trade) - remain_q) h;
              h = assign_quantity remain_trade remain_q h
          in (h, case new_TradePair_obj h a b of Inl e \<Rightarrow> Inl e
                 | Inr p \<Rightarrow> Inr (Some remain_trade, p))
      else
        (h, case new_TradePair_obj h self trade of Inl e \<Rightarrow> Inl e
            | Inr p \<Rightarrow> Inr (None, p)))"

text \<open>
  The inner loop, with the sign of the test on the remainder as a parameter as in
  \<open>match_queue\<close>, and the outer loop. The queues hold references.
\<close>

fun match_queue_obj ::
  "int \<Rightarrow> store \<Rightarrow> ref \<Rightarrow> ref list \<Rightarrow> TradePair_obj list
     \<Rightarrow> store \<times> (error + (ref option \<times> ref list \<times> TradePair_obj list))" where
  "match_queue_obj sg h trade [] ps = (h, Inr (Some trade, [], ps))"
| "match_queue_obj sg h trade (qt # q) ps =
     (case match_obj h trade qt of
        (h', Inl e) \<Rightarrow> (h', Inl e)
      | (h', Inr (remain, pair)) \<Rightarrow>
          (case remain of
             None \<Rightarrow> (h', Inr (None, q, ps @ [pair]))
           | Some r \<Rightarrow>
               if sg * quantity (h' ! r) < 0 then (h', Inr (None, q @ [r], ps @ [pair]))
               else match_queue_obj sg h' r q (ps @ [pair])))"

record matcher_obj =
  o_bq :: "ref list"
  o_sq :: "ref list"
  o_pairs :: "TradePair_obj list"

definition put_ref :: "ref option \<Rightarrow> ref list \<Rightarrow> ref list" where
  "put_ref trade q = (case trade of None \<Rightarrow> q | Some t \<Rightarrow> q @ [t])"

definition process_trade_obj ::
  "store \<Rightarrow> matcher_obj \<Rightarrow> ref \<Rightarrow> store \<times> (error + matcher_obj)" where
  "process_trade_obj h m trade =
     (if quantity (h ! trade) > 0 then
        (case match_queue_obj 1 h trade (o_sq m) (o_pairs m) of
           (h', Inl e) \<Rightarrow> (h', Inl e)
         | (h', Inr (trade', sq', pairs')) \<Rightarrow>
             (h', Inr \<lparr>o_bq = put_ref trade' (o_bq m), o_sq = sq', o_pairs = pairs'\<rparr>))
      else
        (case match_queue_obj (- 1) h trade (o_bq m) (o_pairs m) of
           (h', Inl e) \<Rightarrow> (h', Inl e)
         | (h', Inr (trade', bq', pairs')) \<Rightarrow>
             (h', Inr \<lparr>o_bq = bq', o_sq = put_ref trade' (o_sq m), o_pairs = pairs'\<rparr>)))"

fun process_trades_obj ::
  "store \<Rightarrow> matcher_obj \<Rightarrow> ref list \<Rightarrow> store \<times> (error + matcher_obj)" where
  "process_trades_obj h m [] = (h, Inr m)"
| "process_trades_obj h m (trade # trades) =
     (case process_trade_obj h m trade of
        (h', Inl e) \<Rightarrow> (h', Inl e)
      | (h', Inr m') \<Rightarrow> process_trades_obj h' m' trades)"

definition pair_trades_obj :: "store \<Rightarrow> ref list \<Rightarrow> store \<times> (error + TradePair_obj list)" where
  "pair_trades_obj h trades =
     (case process_trades_obj h \<lparr>o_bq = [], o_sq = [], o_pairs = []\<rparr> trades of
        (h', Inl e) \<Rightarrow> (h', Inl e)
      | (h', Inr m) \<Rightarrow>
          if o_sq m \<noteq> [] \<or> o_bq m \<noteq> [] then (h', Inl (queue_not_empty (length trades)))
          else (h', Inr (o_pairs m)))"

text \<open>
  The ledger holds its trades by reference; the two queries run the matcher on them.
\<close>

record StockTrades_obj =
  obj_stock_trades :: "ref list"
  obj_opt_trade_map :: "(string \<times> ref list) list"

definition stock_pairs_obj ::
  "store \<Rightarrow> StockTrades_obj \<Rightarrow> store \<times> (error + TradePair_obj list)" where
  "stock_pairs_obj h self = pair_trades_obj h (obj_stock_trades self)"

fun option_pairs_loop_obj ::
  "store \<Rightarrow> (string \<times> ref list) list \<Rightarrow> TradePair_obj list
     \<Rightarrow> store \<times> (error + TradePair_obj list)" where
  "option_pairs_loop_obj h [] acc = (h, Inr acc)"
| "option_pairs_loop_obj h ((opt_id, trades) # items) acc =
     (case pair_trades_obj h trades of
        (h', Inl e) \<Rightarrow> (h', Inl e)
      | (h', Inr ps) \<Rightarrow> option_pairs_loop_obj h' items (acc @ ps))"

definition option_pairs_obj ::
  "store \<Rightarrow> StockTrades_obj \<Rightarrow> store \<times> (error + TradePair_obj list)" where
  "option_pairs_obj h self = option_pairs_loop_obj h (obj_opt_trade_map self) []"

text \<open>
  The first loop of \<^verbatim>\<open>finish\<close> for one contract on the store: the sums are read from the
  objects, and the loop that flips the sign assigns to the quantity of each object of
  type \<^verbatim>\<open>'confusion'\<close> in the list.
\<close>

fun flip_confusion_obj :: "store \<Rightarrow> ref list \<Rightarrow> store" where
  "flip_confusion_obj h [] = h"
| "flip_confusion_obj h (trade # trades) =
     (if trade_type (h ! trade) = Some ''confusion''
      then flip_confusion_obj (assign_quantity trade (- quantity (h ! trade)) h) trades
      else flip_confusion_obj h trades)"

definition resolve_confusion_obj :: "store \<Rightarrow> ref list \<Rightarrow> store" where
  "resolve_confusion_obj h trades =
     (case confusion_sums (map ((!) h) trades) (0, 0) of (c_q, q) \<Rightarrow>
        if q = 0 \<and> c_q = 0 then h
        else if q + c_q = 0 then h
        else if q - c_q = 0 then flip_confusion_obj h trades
        else h)"

text \<open>What a pair object shows in a store: its attributes and the two trades it refers to.\<close>

definition pair_of :: "store \<Rightarrow> TradePair_obj \<Rightarrow> TradePair" where
  "pair_of h p =
     \<lparr>t1 = h ! ref_t1 p, t2 = h ! ref_t2 p, pair_symbol = obj_symbol p,
      pair_security_type = obj_security_type p, pair_quantity = obj_quantity p,
      date1 = obj_date1 p, date2 = obj_date2 p, profit = obj_profit p,
      pair_fake = obj_fake p, short = obj_short p\<rparr>"

definition pair_in_store :: "store \<Rightarrow> TradePair_obj \<Rightarrow> bool" where
  "pair_in_store h p \<longleftrightarrow> ref_t1 p < length h \<and> ref_t2 p < length h"

section \<open>Example trades\<close>

text \<open>
  The ordinal of a calendar date, as \<^verbatim>\<open>datetime.date(y, m, d).toordinal()\<close> computes
  it: the days before the year, the days before the month, and the day.
\<close>

definition is_leap :: "int \<Rightarrow> bool" where
  "is_leap y = (y mod 4 = 0 \<and> (y mod 100 \<noteq> 0 \<or> y mod 400 = 0))"

definition days_before_year :: "int \<Rightarrow> int" where
  "days_before_year y = (let y = y - 1 in y * 365 + y div 4 - y div 100 + y div 400)"

definition days_before_month :: "int \<Rightarrow> nat \<Rightarrow> int" where
  "days_before_month y m =
     [0, 0, 31, 59, 90, 120, 151, 181, 212, 243, 273, 304, 334] ! m
       + (if m > 2 \<and> is_leap y then 1 else 0)"

definition ymd2ord :: "int \<Rightarrow> nat \<Rightarrow> int \<Rightarrow> int" where
  "ymd2ord y m d = days_before_year y + days_before_month y m + d"

text \<open>
  A stock trade as \<^verbatim>\<open>ChaseCsvReader.get_trade\<close> builds it from a row: symbol, date,
  quantity and price assigned, the symbol and the price through their setters.
\<close>

definition stock_trade :: "string \<Rightarrow> int \<Rightarrow> int \<Rightarrow> rat \<Rightarrow> StockTrade" where
  "stock_trade s d q p =
     set_price p (set_symbol s
       \<lparr>row = [], symbol = [], security_type = stock, date = d, quantity = q,
        trade_type = None, price = 0, option = None, fake = False\<rparr>)"

text \<open>
  An option trade as \<^verbatim>\<open>EtradeCsvReader.get_trade\<close> builds it, the order type given.
\<close>

definition option_trade ::
  "string \<Rightarrow> StockOption \<Rightarrow> string \<Rightarrow> int \<Rightarrow> int \<Rightarrow> rat \<Rightarrow> StockTrade" where
  "option_trade s opt ty d q p =
     set_price p (set_symbol s
       \<lparr>row = [], symbol = [], security_type = option_security, date = d, quantity = q,
        trade_type = Some ty, price = 0, option = Some opt, fake = False\<rparr>)"

definition call_330 :: StockOption where
  "call_330 = \<lparr>opt_symbol = ''META'', strike = 330, opt_type = ''call'',
               opt_date = ymd2ord 2022 1 21\<rparr>"

text \<open>The trades of the holding period and of the profit examples.\<close>

definition buy_2023_01_01 :: StockTrade where
  "buy_2023_01_01 = stock_trade ''AAPL'' (ymd2ord 2023 1 1) 10 5"

definition sell_2024_01_01 :: StockTrade where
  "sell_2024_01_01 = stock_trade ''AAPL'' (ymd2ord 2024 1 1) (- 10) 7"

definition sell_2024_01_02 :: StockTrade where
  "sell_2024_01_02 = stock_trade ''AAPL'' (ymd2ord 2024 1 2) (- 10) 7"

definition short_7 :: StockTrade where
  "short_7 = stock_trade ''AAPL'' (ymd2ord 2023 1 1) (- 10) 7"

definition cover_5 :: StockTrade where
  "cover_5 = stock_trade ''AAPL'' (ymd2ord 2023 6 1) 10 (- 5)"

text \<open>
  A purchase of 7 for the amount 10, whose price is the quotient of 10 by 7 rounded to 28
  digits, and the sale of the 7 at the price 2.
\<close>

definition buy_7_for_10 :: StockTrade where
  "buy_7_for_10 =
     stock_trade ''AAPL'' (ymd2ord 2023 1 1) 7 (1428571428571428571428571429 / 10 ^ 27)"

definition sell_7_at_2 :: StockTrade where
  "sell_7_at_2 = stock_trade ''AAPL'' (ymd2ord 2023 2 1) (- 7) 2"

text \<open>Groups of option trades: a sold call that expired, a balanced one, an open one.\<close>

definition expired_group :: "StockTrade list" where
  "expired_group =
     [option_trade ''FB'' call_330 ''sell'' (ymd2ord 2022 1 5) (- 2) (3 / 2),
      option_trade ''FB'' call_330 ''confusion'' (ymd2ord 2022 1 21) (- 2) 0]"

definition balanced_group :: "StockTrade list" where
  "balanced_group =
     [option_trade ''FB'' call_330 ''buy'' (ymd2ord 2022 1 5) 2 (3 / 2),
      option_trade ''FB'' call_330 ''confusion'' (ymd2ord 2022 1 21) (- 2) 0]"

definition open_group :: "StockTrade list" where
  "open_group =
     [option_trade ''FB'' call_330 ''buy'' (ymd2ord 2022 1 5) 1 2,
      option_trade ''FB'' call_330 ''buy'' (ymd2ord 2022 1 6) 2 3]"

definition meta_ledger :: "StockTrade list \<Rightarrow> StockTrades" where
  "meta_ledger trades =
     \<lparr>ledger_symbol = ''META'', close_options = True, stock_trades = [],
      opt_trade_map = [(''META 2022-01-21 call@330'', trades)]\<rparr>"

text \<open>A single purchase that is never closed, for two different symbols.\<close>

definition aapl_buy :: StockTrade where
  "aapl_buy = stock_trade ''AAPL'' (ymd2ord 2023 1 1) 10 1"

definition msft_buy :: StockTrade where
  "msft_buy = stock_trade ''MSFT'' (ymd2ord 2023 1 1) 10 1"

text \<open>
  Two short sales on the first and second of January 2023, covered in three purchases on
  the third, fourth and fifth; \<open>jan d\<close> is the date of the day \<open>d\<close> of that month.
\<close>

definition jan :: "int \<Rightarrow> int" where
  "jan d = ymd2ord 2023 1 d"

definition two_lots :: "StockTrade list" where
  "two_lots =
     [stock_trade ''AAPL'' (jan 1) (- 10) 1, stock_trade ''AAPL'' (jan 2) (- 5) 1,
      stock_trade ''AAPL'' (jan 3) 4 1, stock_trade ''AAPL'' (jan 4) 5 1,
      stock_trade ''AAPL'' (jan 5) 6 1]"

text \<open>The trade that \<^verbatim>\<open>finish\<close> adds to \<open>open_group\<close>, whose net quantity is 3.\<close>

definition open_group_close :: StockTrade where
  "open_group_close = closing_trade (hd open_group) 3"




text \<open>An option contract with one purchase of 3 that is never closed.\<close>

definition single_lot_group :: "StockTrade list" where
  "single_lot_group = [option_trade ''FB'' call_330 ''buy'' (ymd2ord 2022 1 5) 3 2]"

section \<open>Notions used in the statements\<close>

text \<open>
  The two inner loops of \<^verbatim>\<open>pair_trades\<close> differ in the sign test on the remainder only.
  \<open>match_queue\<close> is that loop with the sign as a parameter: 1 for the loop over the sell
  queue, -1 for the loop over the buy queue.
\<close>

fun match_queue ::
  "int \<Rightarrow> StockTrade \<Rightarrow> StockTrade list \<Rightarrow> TradePair list
     \<Rightarrow> error + (StockTrade option \<times> StockTrade list \<times> TradePair list)" where
  "match_queue sg trade [] ps = Inr (Some trade, [], ps)"
| "match_queue sg trade (qt # q) ps =
     (case match trade qt of
        Inl e \<Rightarrow> Inl e
      | Inr (remain, pair) \<Rightarrow>
          (case remain of
             None \<Rightarrow> Inr (None, q, ps @ [pair])
           | Some r \<Rightarrow>
               if sg * quantity r < 0 then Inr (None, q @ [r], ps @ [pair])
               else match_queue sg r q (ps @ [pair])))"

text \<open>
  The two net quantities of an option contract: over the trades whose direction is known
  and over the trades of type \<^verbatim>\<open>'confusion'\<close>.
\<close>

definition is_ambiguous :: "StockTrade \<Rightarrow> bool" where
  "is_ambiguous t \<longleftrightarrow> trade_type t = Some ''confusion''"

definition net_normal :: "StockTrade list \<Rightarrow> int" where
  "net_normal ts = sum_list (map quantity (filter (\<lambda>t. \<not> is_ambiguous t) ts))"

definition net_ambiguous :: "StockTrade list \<Rightarrow> int" where
  "net_ambiguous ts = sum_list (map quantity (filter is_ambiguous ts))"








text \<open>
  What the results of the matcher on the store show, read in a store, and the references
  that are objects of a store.
\<close>

definition abs_match :: "store \<Rightarrow> error + (ref option \<times> TradePair_obj) \<Rightarrow> error + (StockTrade option \<times> TradePair)" where
  "abs_match h res = map_sum id (\<lambda>(r, p). (map_option ((!) h) r, pair_of h p)) res"

definition abs_loop ::
  "store \<Rightarrow> error + (ref option \<times> ref list \<times> TradePair_obj list)
     \<Rightarrow> error + (StockTrade option \<times> StockTrade list \<times> TradePair list)" where
  "abs_loop h res =
     map_sum id (\<lambda>(r, q, ps). (map_option ((!) h) r, map ((!) h) q, map (pair_of h) ps)) res"

definition refs_in_store :: "store \<Rightarrow> ref list \<Rightarrow> bool" where
  "refs_in_store h q \<longleftrightarrow> list_all (\<lambda>x. x < length h) q"

definition abs_matcher :: "store \<Rightarrow> matcher_obj \<Rightarrow> matcher" where
  "abs_matcher h m =
     \<lparr>m_bq = map ((!) h) (o_bq m), m_sq = map ((!) h) (o_sq m),
      m_pairs = map (pair_of h) (o_pairs m)\<rparr>"

definition matcher_in_store :: "store \<Rightarrow> matcher_obj \<Rightarrow> bool" where
  "matcher_in_store h m \<longleftrightarrow>
     refs_in_store h (o_bq m) \<and> refs_in_store h (o_sq m) \<and> list_all (pair_in_store h) (o_pairs m)"

text \<open>
  A store with the five stock trades of \<open>two_lots\<close> and an option purchase with its
  closing trade, and the ledger that holds them.
\<close>

definition example_store :: store where
  "example_store = two_lots @ single_lot_group @ [closing_trade (hd single_lot_group) 3]"

definition example_ledger :: StockTrades_obj where
  "example_ledger =
     \<lparr>obj_stock_trades = [0, 1, 2, 3, 4],
      obj_opt_trade_map = [(''META 2022-01-21 call@330'', [5, 6])]\<rparr>"

section \<open>Properties of the decimal context\<close>

text \<open>
  The number of digits and the exponent of the leading digit are characterised by powers
  of ten; a rounded result is a multiple of a power of ten by an integer of at most 28
  digits, so that rounding it again, or negating it, changes nothing; and an operation
  whose exact result is below \<open>pow10 (Emax + 1)\<close> with some room does not overflow.
\<close>

lemma digits_pos: "1 \<le> digits n"
proof (induction n rule: digits.induct)
  case (1 n)
  show ?case
  proof (cases "n < 10")
    case True
    then show ?thesis by (subst digits.simps) simp
  next
    case False
    with 1 have "1 \<le> digits (n div 10)" by simp
    with False show ?thesis by (subst digits.simps) simp
  qed
qed

lemma digits_lower: "1 \<le> n \<Longrightarrow> 10 ^ nat (digits n - 1) \<le> n"
proof (induction n rule: digits.induct)
  case (1 n)
  show ?case
  proof (cases "n < 10")
    case True
    with 1(2) show ?thesis by (subst digits.simps) simp
  next
    case False
    then have d: "1 \<le> n div 10" by simp
    from 1(1)[OF False d] have ih: "10 ^ nat (digits (n div 10) - 1) \<le> n div 10" .
    have eq: "digits n = 1 + digits (n div 10)" using False by (subst digits.simps) simp
    from digits_pos[of "n div 10"]
    have "nat (digits n - 1) = Suc (nat (digits (n div 10) - 1))" unfolding eq by simp
    then have "(10::int) ^ nat (digits n - 1) = 10 * 10 ^ nat (digits (n div 10) - 1)" by simp
    also have "\<dots> \<le> 10 * (n div 10)" using ih by simp
    also have "\<dots> \<le> n" by simp
    finally show ?thesis .
  qed
qed

lemma digits_upper: "n < 10 ^ nat (digits n)"
proof (induction n rule: digits.induct)
  case (1 n)
  show ?case
  proof (cases "n < 10")
    case True
    then show ?thesis by (subst digits.simps) simp
  next
    case False
    from 1[OF False] have ih: "n div 10 < 10 ^ nat (digits (n div 10))" .
    have eq: "digits n = 1 + digits (n div 10)" using False by (subst digits.simps) simp
    from digits_pos[of "n div 10"]
    have "nat (digits n) = Suc (nat (digits (n div 10)))" unfolding eq by simp
    then have e: "(10::int) ^ nat (digits n) = 10 * 10 ^ nat (digits (n div 10))" by simp
    from ih have "n div 10 + 1 \<le> 10 ^ nat (digits (n div 10))" by simp
    then have "10 * (n div 10 + 1) \<le> 10 * 10 ^ nat (digits (n div 10))" by simp
    moreover have "n < 10 * (n div 10 + 1)" by simp
    ultimately show ?thesis unfolding e by simp
  qed
qed

lemma pow10_power_int: "pow10 z = power_int 10 z"
proof (cases "0 \<le> z")
  case True
  then show ?thesis by (simp add: pow10_def power_int_def)
next
  case False
  have "inverse (10::rat) ^ n = 1 / 10 ^ n" for n :: nat
    by (simp add: inverse_eq_divide power_one_over)
  with False show ?thesis by (simp add: pow10_def power_int_def)
qed

lemma pow10_pos: "0 < pow10 z"
  by (simp add: pow10_def)

lemma pow10_add: "pow10 (a + b) = pow10 a * pow10 b"
  by (simp add: pow10_power_int power_int_add)

lemma pow10_mono: "a \<le> b \<Longrightarrow> pow10 a \<le> pow10 b"
  by (simp add: pow10_power_int power_int_increasing)

lemma pow10_less: "pow10 a < pow10 b \<Longrightarrow> a < b"
  using pow10_mono[of b a] by (cases "a < b") auto

lemma pow10_nat: "0 \<le> z \<Longrightarrow> pow10 z = of_int (10 ^ nat z)"
  by (simp add: pow10_def)


lemma adjusted_lower: "x \<noteq> 0 \<Longrightarrow> pow10 (adjusted x) \<le> \<bar>x\<bar>"
proof (cases "1 \<le> \<bar>x\<bar>")
  case True
  then have f: "1 \<le> \<lfloor>\<bar>x\<bar>\<rfloor>" by simp
  from digits_pos[of "\<lfloor>\<bar>x\<bar>\<rfloor>"] have nn: "0 \<le> digits \<lfloor>\<bar>x\<bar>\<rfloor> - 1" by simp
  have "pow10 (adjusted x) = of_int (10 ^ nat (digits \<lfloor>\<bar>x\<bar>\<rfloor> - 1))"
    using True nn by (simp add: adjusted_def pow10_def)
  also have "\<dots> \<le> of_int \<lfloor>\<bar>x\<bar>\<rfloor>"
    using digits_lower[OF f] by (simp only: of_int_le_iff)
  also have "\<dots> \<le> \<bar>x\<bar>" by simp
  finally show ?thesis .
next
  case False
  assume nz: "x \<noteq> 0"
  define m where "m = \<bar>x\<bar>"
  define k where "k = \<lceil>1 / m\<rceil> - 1"
  from nz False have m: "0 < m" "m < 1" by (simp_all add: m_def)
  have adj: "adjusted x = - digits k"
    using False by (simp add: adjusted_def m_def k_def Let_def)
  have "k + 1 \<le> 10 ^ nat (digits k)" using digits_upper[of k] by simp
  then have "\<lceil>1 / m\<rceil> \<le> 10 ^ nat (digits k)" by (simp add: k_def)
  then have "1 / m \<le> of_int (10 ^ nat (digits k))" by (simp only: ceiling_le_iff)
  then have "1 / m \<le> 10 ^ nat (digits k)" by simp
  then have "1 \<le> 10 ^ nat (digits k) * m" using m by (simp add: pos_divide_le_eq)
  then have "1 / 10 ^ nat (digits k) \<le> m" by (simp add: pos_divide_le_eq mult.commute)
  moreover have "pow10 (- digits k) = 1 / 10 ^ nat (digits k)"
    using digits_pos[of k] by (simp add: pow10_def)
  ultimately show ?thesis by (simp add: adj m_def)
qed

lemma adjusted_upper: "\<bar>x\<bar> < pow10 (adjusted x + 1)"
proof (cases "1 \<le> \<bar>x\<bar>")
  case True
  from digits_pos[of "\<lfloor>\<bar>x\<bar>\<rfloor>"] have nn: "0 \<le> digits \<lfloor>\<bar>x\<bar>\<rfloor>" by simp
  have "\<lfloor>\<bar>x\<bar>\<rfloor> + 1 \<le> 10 ^ nat (digits \<lfloor>\<bar>x\<bar>\<rfloor>)"
    using digits_upper[of "\<lfloor>\<bar>x\<bar>\<rfloor>"] by simp
  then have "(of_int (\<lfloor>\<bar>x\<bar>\<rfloor> + 1) :: rat) \<le> of_int (10 ^ nat (digits \<lfloor>\<bar>x\<bar>\<rfloor>))"
    by (simp only: of_int_le_iff)
  moreover have "\<bar>x\<bar> < of_int (\<lfloor>\<bar>x\<bar>\<rfloor> + 1)" by linarith
  moreover have "pow10 (adjusted x + 1) = of_int (10 ^ nat (digits \<lfloor>\<bar>x\<bar>\<rfloor>))"
    using True nn by (simp add: adjusted_def pow10_def)
  ultimately show ?thesis by simp
next
  case False
  show ?thesis
  proof (cases "x = 0")
    case True
    then show ?thesis using pow10_pos[of "adjusted x + 1"] by simp
  next
    case nz: False
    define m where "m = \<bar>x\<bar>"
    define k where "k = \<lceil>1 / m\<rceil> - 1"
    from nz False have m: "0 < m" "m < 1" by (simp_all add: m_def)
    have adj: "adjusted x = - digits k"
      using False by (simp add: adjusted_def m_def k_def Let_def)
    from m have "1 < 1 / m" by simp
    then have "1 < \<lceil>1 / m\<rceil>" by (simp add: less_ceiling_iff)
    then have k1: "1 \<le> k" by (simp add: k_def)
    have "of_int k < 1 / m" unfolding k_def by linarith
    moreover have "(of_int (10 ^ nat (digits k - 1)) :: rat) \<le> of_int k"
      using digits_lower[OF k1] by (simp only: of_int_le_iff)
    ultimately have "(of_int (10 ^ nat (digits k - 1)) :: rat) < 1 / m" by (rule le_less_trans[rotated])
    then have "10 ^ nat (digits k - 1) < 1 / m" by simp
    then have "10 ^ nat (digits k - 1) * m < 1" using m by (simp add: pos_less_divide_eq)
    then have "m < 1 / 10 ^ nat (digits k - 1)" by (simp add: pos_less_divide_eq mult.commute)
    moreover have "pow10 (- digits k + 1) = 1 / 10 ^ nat (digits k - 1)"
    proof (cases "digits k = 1")
      case True
      then show ?thesis by (simp add: pow10_def)
    next
      case False
      with digits_pos[of k] have "1 < digits k" by simp
      then show ?thesis by (simp add: pow10_def)
    qed
    ultimately show ?thesis by (simp add: adj m_def)
  qed
qed

lemma adjusted_eqI: "pow10 e \<le> \<bar>x\<bar> \<Longrightarrow> \<bar>x\<bar> < pow10 (e + 1) \<Longrightarrow> adjusted x = e"
proof -
  assume lo: "pow10 e \<le> \<bar>x\<bar>" and up: "\<bar>x\<bar> < pow10 (e + 1)"
  from lo pow10_pos[of e] have nz: "x \<noteq> 0" by auto
  from lo adjusted_upper[of x] have "pow10 e < pow10 (adjusted x + 1)" by simp
  then have "e < adjusted x + 1" by (rule pow10_less)
  moreover from adjusted_lower[OF nz] up have "pow10 (adjusted x) < pow10 (e + 1)" by simp
  then have "adjusted x < e + 1" by (rule pow10_less)
  ultimately show ?thesis by simp
qed

lemma adjusted_minus: "adjusted (- x) = adjusted x"
  by (simp add: adjusted_def)

lemma round_half_even_near: "\<bar>of_int (round_half_even y) - y\<bar> \<le> 1 / 2"
proof -
  have "of_int \<lfloor>y\<rfloor> \<le> y" "y < of_int \<lfloor>y\<rfloor> + 1" by linarith+
  then show ?thesis
    by (auto simp: round_half_even_def Let_def abs_le_iff)
qed

lemma round_half_even_of_int: "round_half_even (of_int n) = n"
  by (simp add: round_half_even_def)

lemma pow10_28: "pow10 28 = 10 ^ 28"
  by (simp add: pow10_def)

lemma pow10_Suc: "pow10 (a + 1) = 10 * pow10 a"
proof -
  have "pow10 1 = 10" by (simp add: pow10_def)
  then show ?thesis using pow10_add[of a 1] by simp
qed

lemma pow10_less_Suc: "pow10 a < pow10 (a + 1)"
  unfolding pow10_Suc using pow10_pos[of a] by simp

lemma pow10_diff_int: "e' \<le> e \<Longrightarrow> pow10 e = of_int (10 ^ nat (e - e')) * pow10 e'"
proof -
  assume le: "e' \<le> e"
  have "pow10 e = pow10 ((e - e') + e')" by simp
  also have "\<dots> = pow10 (e - e') * pow10 e'" by (rule pow10_add)
  also have "pow10 (e - e') = of_int (10 ^ nat (e - e'))" using le by (simp add: pow10_nat)
  finally show ?thesis .
qed

lemma ctx_round_int_multiple:
  assumes "of_int z * pow10 (max (adjusted y - (prec - 1)) Etiny) = y"
  shows "ctx_round y = y"
proof (cases "y = 0")
  case True
  then show ?thesis by (simp add: ctx_round_def)
next
  case False
  define q where "q = pow10 (max (adjusted y - (prec - 1)) Etiny)"
  have qpos: "0 < q" by (simp add: q_def pow10_pos)
  from assms have yq: "of_int z * q = y" by (simp add: q_def)
  then have "y / q = of_int z" using qpos by (auto simp: field_simps)
  then have "round_half_even (y / q) = z" by (simp add: round_half_even_of_int)
  then have "ctx_round y = of_int z * q" using False by (simp add: ctx_round_def Let_def q_def)
  with yq show ?thesis by simp
qed

lemma ctx_round_fixed:
  assumes e: "Etiny \<le> e" and n: "\<bar>n\<bar> \<le> 10 ^ 28"
  shows "ctx_round (of_int n * pow10 e) = of_int n * pow10 e"
proof (cases "n = 0")
  case True
  then show ?thesis by (simp add: ctx_round_def)
next
  case nz: False
  define y where "y = of_int n * pow10 e"
  define e' where "e' = max (adjusted y - (prec - 1)) Etiny"
  have ynz: "y \<noteq> 0" using nz pow10_pos[of e] by (simp add: y_def)
  have absy: "\<bar>y\<bar> = of_int \<bar>n\<bar> * pow10 e"
    using pow10_pos[of e] by (simp add: y_def abs_mult)
  have "\<exists>z. of_int z * pow10 e' = y"
  proof (cases "\<bar>n\<bar> = 10 ^ 28")
    case True
    then have "\<bar>y\<bar> = pow10 28 * pow10 e" by (simp add: absy pow10_28)
    then have ay: "\<bar>y\<bar> = pow10 (e + 28)" by (simp add: pow10_add mult.commute)
    have "pow10 (e + 28) < pow10 (e + 28 + 1)" by (rule pow10_less_Suc)
    with ay have up: "\<bar>y\<bar> < pow10 (e + 28 + 1)" by simp
    from ay have lo: "pow10 (e + 28) \<le> \<bar>y\<bar>" by simp
    have "adjusted y = e + 28" by (rule adjusted_eqI[OF lo up])
    then have e1: "e' = e + 1" using e by (simp add: e'_def prec_def)
    from True have "n = 10 ^ 28 \<or> n = - (10 ^ 28)" by (cases "0 \<le> n") simp_all
    then have "n = 10 * (n div 10)" by (rule disjE) simp_all
    then have "y = of_int (10 * (n div 10)) * pow10 e" by (simp add: y_def)
    also have "\<dots> = of_int (n div 10) * pow10 (e + 1)" by (simp add: pow10_Suc)
    finally have "of_int (n div 10) * pow10 e' = y" by (simp add: e1)
    then show ?thesis ..
  next
    case False
    with n have "\<bar>n\<bar> < 10 ^ 28" by simp
    then have "(of_int \<bar>n\<bar> :: rat) < of_int (10 ^ 28)" by (simp only: of_int_less_iff)
    then have "(of_int \<bar>n\<bar> :: rat) * pow10 e < of_int (10 ^ 28) * pow10 e"
      using pow10_pos[of e] by (simp only: mult_less_cancel_right_pos)
    then have "\<bar>y\<bar> < pow10 28 * pow10 e" by (simp add: absy pow10_28)
    then have "\<bar>y\<bar> < pow10 (e + 28)" by (simp add: pow10_add mult.commute)
    with adjusted_lower[OF ynz] have "pow10 (adjusted y) < pow10 (e + 28)" by simp
    then have "adjusted y < e + 28" by (rule pow10_less)
    then have "e' \<le> e" using e by (simp add: e'_def prec_def)
    from pow10_diff_int[OF this]
    have "of_int (n * 10 ^ nat (e - e')) * pow10 e' = y" by (simp add: y_def)
    then show ?thesis ..
  qed
  then obtain z where "of_int z * pow10 e' = y" ..
  then have "ctx_round y = y" by (intro ctx_round_int_multiple[of z]) (simp add: e'_def)
  then show ?thesis by (simp add: y_def)
qed

lemma ctx_round_rep:
  "\<exists>n e. ctx_round x = of_int n * pow10 e \<and> Etiny \<le> e \<and> \<bar>n\<bar> \<le> 10 ^ 28"
proof (cases "x = 0")
  case True
  have "ctx_round x = of_int 0 * pow10 Etiny \<and> Etiny \<le> Etiny \<and> \<bar>0::int\<bar> \<le> 10 ^ 28"
    using True by (simp add: ctx_round_def)
  then show ?thesis by blast
next
  case False
  define e where "e = max (adjusted x - (prec - 1)) Etiny"
  define q where "q = pow10 e"
  define n where "n = round_half_even (x / q)"
  have qpos: "0 < q" by (simp add: q_def pow10_pos)
  have cr: "ctx_round x = of_int n * pow10 e"
    using False by (simp add: ctx_round_def Let_def e_def q_def n_def)
  have "adjusted x + 1 - e \<le> 28" by (simp add: e_def prec_def)
  then have "pow10 (adjusted x + 1 - e) \<le> pow10 28" by (rule pow10_mono)
  then have "pow10 (adjusted x + 1 - e) * q \<le> pow10 28 * q"
    using qpos by (simp only: mult_le_cancel_right_pos)
  moreover have "pow10 (adjusted x + 1) = pow10 (adjusted x + 1 - e) * q"
    using pow10_add[of "adjusted x + 1 - e" e] by (simp add: q_def)
  ultimately have "\<bar>x\<bar> < pow10 28 * q" using adjusted_upper[of x] by simp
  then have "\<bar>x\<bar> / q < pow10 28" using qpos by (simp add: pos_divide_less_eq)
  then have "\<bar>x / q\<bar> < 10 ^ 28" using qpos by (simp add: pow10_28)
  with round_half_even_near[of "x / q"] have "\<bar>of_int n :: rat\<bar> < 10 ^ 28 + 1"
    unfolding n_def by linarith
  then have "(of_int \<bar>n\<bar> :: rat) < of_int (10 ^ 28 + 1)" by simp
  then have "\<bar>n\<bar> < 10 ^ 28 + 1" by (simp only: of_int_less_iff)
  then have "\<bar>n\<bar> \<le> 10 ^ 28" by simp
  moreover have "Etiny \<le> e" by (simp add: e_def)
  ultimately show ?thesis using cr by blast
qed


lemma ctx_round_neg: "ctx_round (- ctx_round x) = - ctx_round x"
proof -
  from ctx_round_rep[of x] obtain n e where
    r: "ctx_round x = of_int n * pow10 e" "Etiny \<le> e" "\<bar>n\<bar> \<le> 10 ^ 28" by blast
  then have "ctx_round (of_int (- n) * pow10 e) = of_int (- n) * pow10 e"
    by (intro ctx_round_fixed) simp_all
  then show ?thesis by (simp add: r(1))
qed

lemma ctx_round_0: "ctx_round 0 = 0"
  by (simp add: ctx_round_def)



lemma dec_fix_Inr: "dec_fix x = Inr y \<Longrightarrow> y = ctx_round x \<and> (y = 0 \<or> adjusted y \<le> Emax)"
  by (auto simp: dec_fix_def Let_def split: if_splits)


lemma dec_fix_neg: "dec_fix x = Inr y \<Longrightarrow> dec_fix (- y) = Inr (- y)"
  using ctx_round_neg[of x] by (auto simp: dec_fix_def Let_def adjusted_minus split: if_splits)





section \<open>Properties of the setters, of copy and of TradePair\<close>

lemma copy_simps:
  "date (copy t) = date t" "quantity (copy t) = quantity t" "option (copy t) = option t"
  "security_type (copy t) = security_type t" "row (copy t) = row t"
  "trade_type (copy t) = None" "fake (copy t) = False"
  "price (copy t) = \<bar>price t\<bar>"
  "symbol (copy t) = symbol (set_symbol (symbol t) t)"
  by (simp_all add: copy_def set_symbol_def set_price_def Let_def)


lemma pair_profit_Inr:
  assumes "pair_profit a b = Inr pr"
  shows "\<exists>x y. amount a = Inr x \<and> amount b = Inr y \<and> dec_fix (x + y) = Inr (- pr)"
proof -
  from assms obtain x y s where
    x: "amount a = Inr x" and y: "amount b = Inr y" and s: "dec_fix (x + y) = Inr s"
    and n: "dec_fix (- s) = Inr pr"
    by (auto simp: pair_profit_def split: sum.splits)
  from dec_fix_neg[OF s] n have "pr = - s" by simp
  with x y s show ?thesis by simp
qed


lemma dec_fix_error: "dec_fix x = Inl e \<Longrightarrow> e = DecimalOverflow"
  by (auto simp: dec_fix_def Let_def split: if_splits)

lemma pair_profit_commute: "pair_profit a b = pair_profit b a"
proof -
  have "dec_fix x = Inl e \<Longrightarrow> e = DecimalOverflow" for x e by (rule dec_fix_error)
  then show ?thesis
    by (auto simp: pair_profit_def amount_def add.commute split: sum.splits)
qed


lemma new_TradePair_Inr:
  assumes "new_TradePair a b = Inr p"
  shows "quantity a * quantity b < 0" "symbol a = symbol b" "security_type a = security_type b"
    "pair_profit a b = Inr (profit p)"
    "short p \<longleftrightarrow> date2 p < date1 p + 366"
    "date1 p = date (t1 p)" "date2 p = date (t2 p)" "date1 p \<le> date2 p"
    "pair_fake p \<longleftrightarrow> fake (t1 p) \<or> fake (t2 p)"
    "pair_quantity p = quantity (t1 p)"
    "(t1 p = a \<and> t2 p = b) \<or> (t1 p = b \<and> t2 p = a)"
  using assms
  by (auto simp: new_TradePair_def date_add_def Let_def less_eq_prod_def
      split: if_splits sum.splits)

lemma match_built:
  "match s t = Inr (r, p) \<Longrightarrow> \<exists>a b. new_TradePair a b = Inr p"
  by (auto simp: match_def Let_def split: if_splits sum.splits)

lemma match_sell_queue_eq: "match_sell_queue t q ps = match_queue 1 t q ps"
  by (induction q arbitrary: t ps) (auto split: sum.splits option.splits)

lemma match_buy_queue_eq: "match_buy_queue t q ps = match_queue (- 1) t q ps"
  by (induction q arbitrary: t ps) (auto split: sum.splits option.splits)

text \<open>Every pair the matcher emits was built by the constructor.\<close>

lemma match_queue_pairs:
  assumes "\<And>a b p. new_TradePair a b = Inr p \<Longrightarrow> P p"
  shows "list_all P ps0 \<Longrightarrow> match_queue sg t q ps0 = Inr (r, q', ps) \<Longrightarrow> list_all P ps"
proof (induction q arbitrary: t ps0)
  case Nil
  then show ?case by simp
next
  case (Cons st q)
  from Cons.prems(2) obtain rm pr where m: "match t st = Inr (rm, pr)"
    by (auto split: sum.splits)
  then have "P pr" using assms match_built by blast
  with Cons.prems(1) have all: "list_all P (ps0 @ [pr])" by simp
  show ?case
  proof (cases rm)
    case None
    with Cons.prems(2) m all show ?thesis by auto
  next
    case (Some x)
    show ?thesis
    proof (cases "sg * quantity x < 0")
      case True
      with Cons.prems(2) m Some all show ?thesis by auto
    next
      case False
      with Cons.prems(2) m Some have "match_queue sg x q (ps0 @ [pr]) = Inr (r, q', ps)"
        by simp
      from Cons.IH[OF all this] show ?thesis .
    qed
  qed
qed

lemma process_trade_pairs:
  assumes "\<And>a b p. new_TradePair a b = Inr p \<Longrightarrow> P p"
    and "list_all P (m_pairs m)" and "process_trade m t = Inr m'"
  shows "list_all P (m_pairs m')"
proof -
  have q: "list_all P ps" if "match_queue sg t (q::StockTrade list) (m_pairs m) = Inr (r, q', ps)"
    for sg q r q' ps
    by (rule match_queue_pairs[where P = P and ?ps0.0 = "m_pairs m"])
      (use assms(1,2) that in auto)
  from assms(3) show ?thesis
    by (auto simp: process_trade_def match_sell_queue_eq match_buy_queue_eq
        split: if_splits sum.splits dest: q)
qed

lemma process_trades_pairs:
  assumes "\<And>a b p. new_TradePair a b = Inr p \<Longrightarrow> P p"
  shows "list_all P (m_pairs m) \<Longrightarrow> process_trades m ts = Inr m' \<Longrightarrow> list_all P (m_pairs m')"
proof (induction ts arbitrary: m)
  case Nil
  then show ?case by simp
next
  case (Cons t ts)
  from Cons.prems(2) obtain m1 where s: "process_trade m t = Inr m1"
    and r: "process_trades m1 ts = Inr m'"
    by (auto split: sum.splits)
  have "list_all P (m_pairs m1)"
    by (rule process_trade_pairs[where P = P and m = m and t = t])
      (use assms Cons.prems(1) s in auto)
  from Cons.IH[OF this r] show ?case .
qed

lemma pair_trades_pairs:
  assumes "\<And>a b p. new_TradePair a b = Inr p \<Longrightarrow> P p"
    and "pair_trades ts = Inr ps"
  shows "list_all P ps"
proof -
  from assms(2) obtain m where r: "process_trades empty_matcher ts = Inr m" and "ps = m_pairs m"
    by (auto simp: pair_trades_def split: sum.splits if_splits)
  have init: "list_all P (m_pairs empty_matcher)" by (simp add: empty_matcher_def)
  have "list_all P (m_pairs m)"
    by (rule process_trades_pairs[where P = P and m = empty_matcher and ts = ts])
      (use assms(1) init r in auto)
  with \<open>ps = m_pairs m\<close> show ?thesis by simp
qed

section \<open>Holding period and profit of a pair\<close>

text \<open>
  Claim C6. For every trade pair, \<open>short\<close> (the pair is short-term) holds exactly when the
  date of the closing trade \<open>t2\<close> is strictly before the date of the opening trade \<open>t1\<close>
  plus 366 days; this holds for every pair the constructor builds and for every pair
  \<open>pair_trades\<close> returns. A pair opened on 2023-01-01 and closed on 2024-01-01 is
  short-term, one closed on 2024-01-02 is not.
\<close>

theorem C6_short_term:
  "(new_TradePair a b = Inr p \<longrightarrow>
      (short p \<longleftrightarrow> date (t2 p) < date (t1 p) + 366) \<and> date (t1 p) \<le> date (t2 p)
      \<and> date1 p = date (t1 p) \<and> date2 p = date (t2 p))
   \<and> (pair_trades ts = Inr ps \<longrightarrow>
        (\<forall>p\<in>set ps. short p \<longleftrightarrow> date (t2 p) < date (t1 p) + 366))
   \<and> map_sum id (\<lambda>p. (date1 p, date2 p, short p)) (new_TradePair buy_2023_01_01 sell_2024_01_01)
       = Inr (ymd2ord 2023 1 1, ymd2ord 2024 1 1, True)
   \<and> map_sum id (\<lambda>p. (date1 p, date2 p, short p)) (new_TradePair buy_2023_01_01 sell_2024_01_02)
       = Inr (ymd2ord 2023 1 1, ymd2ord 2024 1 2, False)"
proof (intro conjI impI)
  assume r: "pair_trades ts = Inr ps"
  have "list_all (\<lambda>p. short p \<longleftrightarrow> date (t2 p) < date (t1 p) + 366) ps"
    by (rule pair_trades_pairs[where ts = ts]) (use r new_TradePair_Inr(5,6,7) in auto)
  then show "\<forall>p\<in>set ps. short p \<longleftrightarrow> date (t2 p) < date (t1 p) + 366"
    by (simp add: list_all_iff)
next
  show "map_sum id (\<lambda>p. (date1 p, date2 p, short p)) (new_TradePair buy_2023_01_01 sell_2024_01_01)
       = Inr (ymd2ord 2023 1 1, ymd2ord 2024 1 1, True)"
    by code_simp
next
  show "map_sum id (\<lambda>p. (date1 p, date2 p, short p)) (new_TradePair buy_2023_01_01 sell_2024_01_02)
       = Inr (ymd2ord 2023 1 1, ymd2ord 2024 1 2, False)"
    by code_simp
qed (use new_TradePair_Inr(5,6,7,8) in auto)

theorem C6_short_term_witness:
  "(\<exists>p. new_TradePair buy_2023_01_01 sell_2024_01_01 = Inr p
        \<and> (short p \<longleftrightarrow> date (t2 p) < date (t1 p) + 366) \<and> date (t1 p) \<le> date (t2 p))
   \<and> (\<exists>ps. pair_trades [buy_2023_01_01, sell_2024_01_02] = Inr ps \<and> ps \<noteq> []
        \<and> (\<forall>p\<in>set ps. short p \<longleftrightarrow> date (t2 p) < date (t1 p) + 366))"
proof -
  have "\<not> isl (new_TradePair buy_2023_01_01 sell_2024_01_01)" by code_simp
  then obtain p where p: "new_TradePair buy_2023_01_01 sell_2024_01_01 = Inr p"
    by (cases "new_TradePair buy_2023_01_01 sell_2024_01_01") auto
  have "\<not> isl (pair_trades [buy_2023_01_01, sell_2024_01_02])" by code_simp
  then obtain ps where ps: "pair_trades [buy_2023_01_01, sell_2024_01_02] = Inr ps"
    by (cases "pair_trades [buy_2023_01_01, sell_2024_01_02]") auto
  have "length (projr (pair_trades [buy_2023_01_01, sell_2024_01_02])) = 1" by code_simp
  with ps have ne: "ps \<noteq> []" by auto
  from C6_short_term[of buy_2023_01_01 sell_2024_01_01 p "[buy_2023_01_01, sell_2024_01_02]" ps]
    p ps ne
  show ?thesis by blast
qed

lemma new_TradePair_profit:
  assumes "new_TradePair a b = Inr p"
  shows "\<exists>x y. amount (t1 p) = Inr x \<and> amount (t2 p) = Inr y
           \<and> dec_fix (x + y) = Inr (- profit p)"
proof -
  from pair_profit_Inr[OF new_TradePair_Inr(4)[OF assms]] obtain x y where
    xy: "amount a = Inr x" "amount b = Inr y" "dec_fix (x + y) = Inr (- profit p)" by blast
  from new_TradePair_Inr(11)[OF assms] show ?thesis
  proof
    assume "t1 p = a \<and> t2 p = b"
    with xy show ?thesis by simp
  next
    assume "t1 p = b \<and> t2 p = a"
    with xy show ?thesis by (simp add: add.commute)
  qed
qed

text \<open>
  Claim C7. The profit of a pair built from the trades \<open>a\<close> and \<open>b\<close> is
  \<^verbatim>\<open>-(a.amount + b.amount)\<close> in the arithmetic of \<^verbatim>\<open>Decimal\<close>: the amount of a trade is its
  quantity times its price, rounded to the context; the two amounts of the trades as
  they are passed to the constructor are added, the sum is rounded, and the profit is
  its negation, which is exact. The order of the two arguments and the sorting by date do
  not change it, so that it is computed from the two trades of the pair as well. When the
  two products and their sum have at most 28 digits, the profit is exactly minus the sum
  of the two products. A price is stored as a magnitude. Buying 10 at 5.00 and selling 10
  at 7.00 gives the profit 20, and so does selling 10 at 7.00 first and buying 10 at 5.00
  afterwards. Buying 7 for the amount 10, at the price that the reader computes as the
  quotient of 10 by 7, and selling the 7 at 2 gives the profit 4, the amount of the
  purchase being rounded to 10.
\<close>

theorem C7_profit:
  "(new_TradePair a b = Inr p \<longrightarrow>
      (\<exists>x y. amount a = Inr x \<and> amount b = Inr y \<and> dec_fix (x + y) = Inr (- profit p))
      \<and> (\<exists>x y. amount (t1 p) = Inr x \<and> amount (t2 p) = Inr y
             \<and> dec_fix (x + y) = Inr (- profit p)))
   \<and> amount t = dec_fix (of_int (quantity t) * price t)
   \<and> (new_TradePair a b = Inr p
        \<and> dec_fix (of_int (quantity a) * price a) = Inr (of_int (quantity a) * price a)
        \<and> dec_fix (of_int (quantity b) * price b) = Inr (of_int (quantity b) * price b)
        \<and> dec_fix (of_int (quantity a) * price a + of_int (quantity b) * price b)
            = Inr (of_int (quantity a) * price a + of_int (quantity b) * price b)
      \<longrightarrow> profit p = - (of_int (quantity a) * price a + of_int (quantity b) * price b))
   \<and> (new_TradePair a b = Inr p \<and> new_TradePair b a = Inr p' \<longrightarrow> profit p' = profit p)
   \<and> (pair_trades ts = Inr ps \<longrightarrow>
        (\<forall>p\<in>set ps. \<exists>x y. amount (t1 p) = Inr x \<and> amount (t2 p) = Inr y
             \<and> dec_fix (x + y) = Inr (- profit p)))
   \<and> price (set_price v t) = \<bar>v\<bar>
   \<and> map_sum id (map profit) (pair_trades [buy_2023_01_01, sell_2024_01_01]) = Inr [20]
   \<and> map_sum id (map profit) (pair_trades [short_7, cover_5]) = Inr [20]
   \<and> map_sum id price (reader_price 10 7 (stock_trade ''AAPL'' (ymd2ord 2023 1 1) 7 0))
       = Inr (price buy_7_for_10)
   \<and> amount buy_7_for_10 = Inr 10
   \<and> map_sum id (map profit) (pair_trades [buy_7_for_10, sell_7_at_2]) = Inr [4]"
proof (intro conjI impI)
  assume r: "pair_trades ts = Inr ps"
  have "list_all (\<lambda>p. \<exists>x y. amount (t1 p) = Inr x \<and> amount (t2 p) = Inr y
             \<and> dec_fix (x + y) = Inr (- profit p)) ps"
    by (rule pair_trades_pairs[where ts = ts]) (use r new_TradePair_profit in blast)+
  then show "\<forall>p\<in>set ps. \<exists>x y. amount (t1 p) = Inr x \<and> amount (t2 p) = Inr y
             \<and> dec_fix (x + y) = Inr (- profit p)"
    by (simp add: list_all_iff)
next
  show "map_sum id (map profit) (pair_trades [buy_2023_01_01, sell_2024_01_01]) = Inr [20]"
    by code_simp
next
  show "map_sum id (map profit) (pair_trades [short_7, cover_5]) = Inr [20]"
    by code_simp
next
  show "map_sum id price (reader_price 10 7 (stock_trade ''AAPL'' (ymd2ord 2023 1 1) 7 0))
       = Inr (price buy_7_for_10)"
    by code_simp
next
  show "amount buy_7_for_10 = Inr 10"
    by code_simp
next
  show "map_sum id (map profit) (pair_trades [buy_7_for_10, sell_7_at_2]) = Inr [4]"
    by code_simp
next
  show "price (set_price v t) = \<bar>v\<bar>"
    by (simp add: set_price_def)
next
  show "amount t = dec_fix (of_int (quantity t) * price t)"
    by (simp add: amount_def)
next
  assume "new_TradePair a b = Inr p"
  then show "\<exists>x y. amount (t1 p) = Inr x \<and> amount (t2 p) = Inr y
             \<and> dec_fix (x + y) = Inr (- profit p)"
    by (rule new_TradePair_profit)
next
  assume "new_TradePair a b = Inr p"
  from pair_profit_Inr[OF new_TradePair_Inr(4)[OF this]]
  show "\<exists>x y. amount a = Inr x \<and> amount b = Inr y \<and> dec_fix (x + y) = Inr (- profit p)" .
next
  assume h: "new_TradePair a b = Inr p
        \<and> dec_fix (of_int (quantity a) * price a) = Inr (of_int (quantity a) * price a)
        \<and> dec_fix (of_int (quantity b) * price b) = Inr (of_int (quantity b) * price b)
        \<and> dec_fix (of_int (quantity a) * price a + of_int (quantity b) * price b)
            = Inr (of_int (quantity a) * price a + of_int (quantity b) * price b)"
  from h pair_profit_Inr[OF new_TradePair_Inr(4)[of a b p]]
  show "profit p = - (of_int (quantity a) * price a + of_int (quantity b) * price b)"
    by (auto simp: amount_def)
next
  assume h: "new_TradePair a b = Inr p \<and> new_TradePair b a = Inr p'"
  from h new_TradePair_Inr(4)[of a b p] new_TradePair_Inr(4)[of b a p']
  show "profit p' = profit p" by (simp add: pair_profit_commute[of a b])
qed

theorem C7_profit_witness:
  "(\<exists>p p'. new_TradePair short_7 cover_5 = Inr p \<and> new_TradePair cover_5 short_7 = Inr p'
        \<and> amount short_7 = Inr (- 70) \<and> amount cover_5 = Inr 50
        \<and> dec_fix (- 70 + 50) = Inr (- profit p)
        \<and> profit p = - (of_int (quantity short_7) * price short_7
                          + of_int (quantity cover_5) * price cover_5)
        \<and> profit p' = profit p)
   \<and> (\<exists>ps. pair_trades [short_7, cover_5] = Inr ps \<and> ps \<noteq> []
        \<and> (\<forall>p\<in>set ps. \<exists>x y. amount (t1 p) = Inr x \<and> amount (t2 p) = Inr y
             \<and> dec_fix (x + y) = Inr (- profit p)))"
proof -
  have "\<not> isl (new_TradePair short_7 cover_5)" by code_simp
  then obtain p where p: "new_TradePair short_7 cover_5 = Inr p"
    by (cases "new_TradePair short_7 cover_5") auto
  have "\<not> isl (new_TradePair cover_5 short_7)" by code_simp
  then obtain p' where p': "new_TradePair cover_5 short_7 = Inr p'"
    by (cases "new_TradePair cover_5 short_7") auto
  have "\<not> isl (pair_trades [short_7, cover_5])" by code_simp
  then obtain ps where ps: "pair_trades [short_7, cover_5] = Inr ps"
    by (cases "pair_trades [short_7, cover_5]") auto
  have "length (projr (pair_trades [short_7, cover_5])) = 1" by code_simp
  with ps have ne: "ps \<noteq> []" by auto
  have a1: "amount short_7 = Inr (- 70)" by code_simp
  have a2: "amount cover_5 = Inr 50" by code_simp
  have e1: "dec_fix (of_int (quantity short_7) * price short_7)
      = Inr (of_int (quantity short_7) * price short_7)" by code_simp
  have e2: "dec_fix (of_int (quantity cover_5) * price cover_5)
      = Inr (of_int (quantity cover_5) * price cover_5)" by code_simp
  have e3: "dec_fix (of_int (quantity short_7) * price short_7
        + of_int (quantity cover_5) * price cover_5)
      = Inr (of_int (quantity short_7) * price short_7
        + of_int (quantity cover_5) * price cover_5)" by code_simp
  note w = C7_profit[where a = short_7 and b = cover_5 and p = p and p' = p'
      and ts = "[short_7, cover_5]" and ps = ps]
  from w p a1 a2 have s: "dec_fix (- 70 + 50) = Inr (- profit p)" by auto
  from w p p' ps ne e1 e2 e3 a1 a2 s show ?thesis by blast
qed

section \<open>finish: the expired options of unknown direction\<close>

lemma confusion_sums_eq:
  "confusion_sums ts (c, q) = (c + net_ambiguous ts, q + net_normal ts)"
  by (induction ts arbitrary: c q) (auto simp: net_ambiguous_def net_normal_def is_ambiguous_def)

lemma resolve_loop_eq:
  "resolve_loop (sort_key date stocks) items =
     (sort_key date stocks, map (\<lambda>(opt_id, trades). (opt_id, resolve_confusion trades)) items)"
proof (induction items)
  case Nil
  then show ?case by simp
next
  case (Cons it items)
  have "sort_key date (sort_key date stocks) = sort_key date stocks"
    by (rule sort_key_id_if_sorted) simp
  with Cons show ?case by (cases it) simp
qed

lemma length_resolve_confusion: "length (resolve_confusion ts) = length ts"
  by (simp add: resolve_confusion_def split: prod.splits)


lemma close_group_appends:
  "close_group c k ts = Inr ts' \<Longrightarrow> take (length ts) ts' = ts"
  by (auto simp: close_group_def Let_def split: if_splits list.splits)

lemma close_loop_appends:
  "close_loop c items = Inr items' \<Longrightarrow>
     list_all2 (\<lambda>(k, ts) (k', ts'). k' = k \<and> take (length ts) ts' = ts) items items'"
proof (induction items arbitrary: items')
  case Nil
  then show ?case by simp
next
  case (Cons it items)
  obtain k ts where it: "it = (k, ts)" by (cases it)
  from Cons.prems it obtain ts' rest where g: "close_group c k ts = Inr ts'"
    and l: "close_loop c items = Inr rest" and e: "items' = (k, ts') # rest"
    by (auto split: sum.splits)
  from Cons.IH[OF l] close_group_appends[OF g] it e show ?case by simp
qed

lemma flip_confusion_obj_nth:
  "distinct trades \<Longrightarrow> refs_in_store h trades
   \<Longrightarrow> length (flip_confusion_obj h trades) = length h
     \<and> (\<forall>x<length h. flip_confusion_obj h trades ! x
            = (if x \<in> set trades then flip_confusion (h ! x) else h ! x))"
proof (induction trades arbitrary: h)
  case Nil
  then show ?case by simp
next
  case (Cons t ts)
  from Cons.prems have d: "distinct ts" "t \<notin> set ts" and t: "t < length h"
    and ts: "refs_in_store h ts" by (simp_all add: refs_in_store_def)
  let ?h1 = "if trade_type (h ! t) = Some ''confusion''
             then assign_quantity t (- quantity (h ! t)) h else h"
  have l1: "length ?h1 = length h" by (simp add: assign_quantity_def)
  have n1: "?h1 ! x = (if x = t then flip_confusion (h ! x) else h ! x)" if "x < length h" for x
    using that t by (simp add: assign_quantity_def flip_confusion_def)
  have ts1: "refs_in_store ?h1 ts" using ts l1 by (simp add: refs_in_store_def)
  have step: "flip_confusion_obj h (t # ts) = flip_confusion_obj ?h1 ts" by simp
  from Cons.IH[OF d(1) ts1] have ih: "length (flip_confusion_obj ?h1 ts) = length ?h1"
    "\<forall>x<length ?h1. flip_confusion_obj ?h1 ts ! x
            = (if x \<in> set ts then flip_confusion (?h1 ! x) else ?h1 ! x)" by blast+
  show ?case unfolding step
  proof (intro conjI allI impI)
    show "length (flip_confusion_obj ?h1 ts) = length h" using ih(1) l1 by simp
  next
    fix x assume x: "x < length h"
    with ih(2) l1 have "flip_confusion_obj ?h1 ts ! x
            = (if x \<in> set ts then flip_confusion (?h1 ! x) else ?h1 ! x)" by simp
    also have "\<dots> = (if x \<in> set (t # ts) then flip_confusion (h ! x) else h ! x)"
      using n1[OF x] d(2) by auto
    finally show "flip_confusion_obj ?h1 ts ! x
            = (if x \<in> set (t # ts) then flip_confusion (h ! x) else h ! x)" .
  qed
qed

lemma resolve_confusion_obj_refines:
  assumes "distinct trades" "refs_in_store h trades"
  shows "map ((!) (resolve_confusion_obj h trades)) trades = resolve_confusion (map ((!) h) trades)
     \<and> length (resolve_confusion_obj h trades) = length h
     \<and> (\<forall>x. x < length h \<and> x \<notin> set trades \<longrightarrow> resolve_confusion_obj h trades ! x = h ! x)"
proof -
  from flip_confusion_obj_nth[OF assms]
  have l: "length (flip_confusion_obj h trades) = length h"
    and n: "\<forall>x<length h. flip_confusion_obj h trades ! x
            = (if x \<in> set trades then flip_confusion (h ! x) else h ! x)" by blast+
  from assms(2) have v: "\<forall>x\<in>set trades. x < length h" by (simp add: refs_in_store_def list_all_iff)
  with n have m: "map ((!) (flip_confusion_obj h trades)) trades
      = map flip_confusion (map ((!) h) trades)" by simp
  show ?thesis
    using l n m
    by (auto simp: resolve_confusion_obj_def resolve_confusion_def split: prod.splits)
qed

text \<open>
  Claim C5. For an option contract with the trades \<open>ts\<close>, \<open>net_normal\<close> the sum of the
  quantities of the trades of known direction and \<open>net_ambiguous\<close> that of the trades of
  type confusion (the two sums the loop computes): when their sum is zero no trade is
  changed; otherwise, when their difference is zero, the quantity of every ambiguous
  trade is negated and no other trade is changed; otherwise no trade is changed.
  \<open>finish\<close> passes the lists so resolved on to the loop that closes the open options or
  raises, and that loop only appends to them. On the store the loop assigns in place:
  for a list of distinct trade objects it leaves in them what \<open>resolve_confusion\<close>
  computes from their values, and it changes no other object.
\<close>

theorem C5_confusion:
  "(distinct refs \<and> refs_in_store h refs \<longrightarrow>
      map ((!) (resolve_confusion_obj h refs)) refs = resolve_confusion (map ((!) h) refs)
      \<and> length (resolve_confusion_obj h refs) = length h
      \<and> (\<forall>x. x < length h \<and> x \<notin> set refs \<longrightarrow> resolve_confusion_obj h refs ! x = h ! x))
   \<and> (net_normal ts + net_ambiguous ts = 0 \<longrightarrow> resolve_confusion ts = ts)
   \<and> (net_normal ts + net_ambiguous ts \<noteq> 0 \<and> net_normal ts - net_ambiguous ts = 0 \<longrightarrow>
        resolve_confusion ts =
          map (\<lambda>t. if is_ambiguous t then t\<lparr>quantity := - quantity t\<rparr> else t) ts)
   \<and> (net_normal ts + net_ambiguous ts \<noteq> 0 \<and> net_normal ts - net_ambiguous ts \<noteq> 0 \<longrightarrow>
        resolve_confusion ts = ts)
   \<and> confusion_sums ts (0, 0) = (net_ambiguous ts, net_normal ts)
   \<and> finish self =
       (case close_loop (close_options self)
               (map (\<lambda>(opt_id, trades). (opt_id, resolve_confusion trades)) (opt_trade_map self)) of
          Inl e \<Rightarrow> Inl e
        | Inr items \<Rightarrow>
            Inr (self\<lparr>stock_trades := sort_key date (stock_trades self), opt_trade_map := items\<rparr>))
   \<and> (finish self = Inr self' \<longrightarrow>
        list_all2 (\<lambda>(k, ts) (k', ts'). k' = k \<and> take (length ts) ts' = resolve_confusion ts)
          (opt_trade_map self) (opt_trade_map self'))"
proof -
  have flip: "flip_confusion = (\<lambda>t. if is_ambiguous t then t\<lparr>quantity := - quantity t\<rparr> else t)"
    by (auto simp: flip_confusion_def is_ambiguous_def)
  have fin: "finish self =
       (case close_loop (close_options self)
               (map (\<lambda>(opt_id, trades). (opt_id, resolve_confusion trades)) (opt_trade_map self)) of
          Inl e \<Rightarrow> Inl e
        | Inr items \<Rightarrow>
            Inr (self\<lparr>stock_trades := sort_key date (stock_trades self), opt_trade_map := items\<rparr>))"
    by (simp add: finish_def resolve_loop_eq)
  have app: "list_all2 (\<lambda>(k, ts) (k', ts'). k' = k \<and> take (length ts) ts' = resolve_confusion ts)
          (opt_trade_map self) (opt_trade_map self')" if f: "finish self = Inr self'"
  proof -
    from f fin obtain items where
      c: "close_loop (close_options self)
            (map (\<lambda>(opt_id, trades). (opt_id, resolve_confusion trades)) (opt_trade_map self))
          = Inr items"
      and s: "opt_trade_map self' = items"
      by (auto split: sum.splits)
    from close_loop_appends[OF c] s show ?thesis
      by (auto simp: list_all2_map1 case_prod_unfold length_resolve_confusion)
  qed
  have st: "distinct refs \<and> refs_in_store h refs \<longrightarrow>
      map ((!) (resolve_confusion_obj h refs)) refs = resolve_confusion (map ((!) h) refs)
      \<and> length (resolve_confusion_obj h refs) = length h
      \<and> (\<forall>x. x < length h \<and> x \<notin> set refs \<longrightarrow> resolve_confusion_obj h refs ! x = h ! x)"
    using resolve_confusion_obj_refines[of refs h] by blast
  have main: "(net_normal ts + net_ambiguous ts = 0 \<longrightarrow> resolve_confusion ts = ts)
   \<and> (net_normal ts + net_ambiguous ts \<noteq> 0 \<and> net_normal ts - net_ambiguous ts = 0 \<longrightarrow>
        resolve_confusion ts =
          map (\<lambda>t. if is_ambiguous t then t\<lparr>quantity := - quantity t\<rparr> else t) ts)
   \<and> (net_normal ts + net_ambiguous ts \<noteq> 0 \<and> net_normal ts - net_ambiguous ts \<noteq> 0 \<longrightarrow>
        resolve_confusion ts = ts)
   \<and> confusion_sums ts (0, 0) = (net_ambiguous ts, net_normal ts)
   \<and> finish self =
       (case close_loop (close_options self)
               (map (\<lambda>(opt_id, trades). (opt_id, resolve_confusion trades)) (opt_trade_map self)) of
          Inl e \<Rightarrow> Inl e
        | Inr items \<Rightarrow>
            Inr (self\<lparr>stock_trades := sort_key date (stock_trades self), opt_trade_map := items\<rparr>))
   \<and> (finish self = Inr self' \<longrightarrow>
        list_all2 (\<lambda>(k, ts) (k', ts'). k' = k \<and> take (length ts) ts' = resolve_confusion ts)
          (opt_trade_map self) (opt_trade_map self'))"
    using fin app
    by (auto simp: resolve_confusion_def confusion_sums_eq flip)
  from st main show ?thesis by (rule conjI)
qed

theorem C5_confusion_witness:
  "net_normal balanced_group + net_ambiguous balanced_group = 0
   \<and> resolve_confusion balanced_group = balanced_group
   \<and> net_normal expired_group + net_ambiguous expired_group = - 4
   \<and> net_normal expired_group - net_ambiguous expired_group = 0
   \<and> resolve_confusion expired_group =
        map (\<lambda>t. if is_ambiguous t then t\<lparr>quantity := - quantity t\<rparr> else t) expired_group
   \<and> map quantity (resolve_confusion expired_group) = [- 2, 2]
   \<and> net_normal open_group + net_ambiguous open_group = 3
   \<and> net_normal open_group - net_ambiguous open_group = 3
   \<and> resolve_confusion open_group = open_group
   \<and> (\<exists>l. finish (meta_ledger expired_group) = Inr l
         \<and> map (map quantity \<circ> snd) (opt_trade_map l) = [[- 2, 2]])
   \<and> distinct [0, 1 :: nat] \<and> refs_in_store expired_group [0, 1]
   \<and> map ((!) (resolve_confusion_obj expired_group [0, 1])) [0, 1]
        = resolve_confusion (map ((!) expired_group) [0, 1])
   \<and> length (resolve_confusion_obj expired_group [0, 1]) = length expired_group"
proof -
  have d: "distinct [0, 1 :: nat]" by simp
  have v: "refs_in_store expired_group [0, 1]" by code_simp
  have b: "net_normal balanced_group + net_ambiguous balanced_group = 0" by code_simp
  have e1: "net_normal expired_group + net_ambiguous expired_group = - 4" by code_simp
  have e2: "net_normal expired_group - net_ambiguous expired_group = 0" by code_simp
  have o1: "net_normal open_group + net_ambiguous open_group = 3" by code_simp
  have o2: "net_normal open_group - net_ambiguous open_group = 3" by code_simp
  have q: "map quantity (resolve_confusion expired_group) = [- 2, 2]" by code_simp
  have "\<not> isl (finish (meta_ledger expired_group))" by code_simp
  then obtain l where l: "finish (meta_ledger expired_group) = Inr l"
    by (cases "finish (meta_ledger expired_group)") auto
  have "map (map quantity \<circ> snd) (opt_trade_map (projr (finish (meta_ledger expired_group))))
          = [[- 2, 2]]"
    by code_simp
  with l have m: "map (map quantity \<circ> snd) (opt_trade_map l) = [[- 2, 2]]" by simp
  from C5_confusion[where ts = balanced_group] b
  have r1: "resolve_confusion balanced_group = balanced_group" by blast
  from e1 have e1': "net_normal expired_group + net_ambiguous expired_group \<noteq> 0" by simp
  from C5_confusion[where ts = expired_group] e1' e2
  have r2: "resolve_confusion expired_group =
        map (\<lambda>t. if is_ambiguous t then t\<lparr>quantity := - quantity t\<rparr> else t) expired_group"
    by blast
  from o1 o2 have o': "net_normal open_group + net_ambiguous open_group \<noteq> 0"
    "net_normal open_group - net_ambiguous open_group \<noteq> 0" by simp_all
  from C5_confusion[where ts = open_group] o'
  have r3: "resolve_confusion open_group = open_group" by blast
  have r4: "\<exists>l. finish (meta_ledger expired_group) = Inr l
         \<and> map (map quantity \<circ> snd) (opt_trade_map l) = [[- 2, 2]]"
    by (rule exI[of _ l]) (use l m in simp)
  from C5_confusion[where refs = "[0, 1]" and h = expired_group] d v
  have r5: "map ((!) (resolve_confusion_obj expired_group [0, 1])) [0, 1]
        = resolve_confusion (map ((!) expired_group) [0, 1])"
    and r6: "length (resolve_confusion_obj expired_group [0, 1]) = length expired_group"
    by blast+
  from b r1 e1 e2 r2 q o1 o2 r3 r4 d v r5 r6 show ?thesis by blast
qed

section \<open>The error of an unbalanced list\<close>

text \<open>
  Claim C4, as the code has it. When a queue is not empty after all trades are
  processed, \<open>pair_trades\<close> raises a \<^verbatim>\<open>ValueError\<close> whose message gives the number of
  input trades, and it returns a list of pairs only when both queues are empty. The
  single purchase of 10 raises this error. The message does not name the instrument.
\<close>

theorem C4_unbalanced_raises:
  "(process_trades empty_matcher ts = Inr m \<and> (m_sq m \<noteq> [] \<or> m_bq m \<noteq> []) \<longrightarrow>
      pair_trades ts =
        Inl (ValueError (''queue not empty, check for missing open/close txns,  initial trades ''
                          @ str_nat (length ts))))
   \<and> (pair_trades ts = Inr ps \<longrightarrow>
        (\<exists>m. process_trades empty_matcher ts = Inr m \<and> m_sq m = [] \<and> m_bq m = []
           \<and> ps = m_pairs m))
   \<and> pair_trades [aapl_buy] =
        Inl (ValueError ''queue not empty, check for missing open/close txns,  initial trades 1'')"
proof (intro conjI impI)
  show "pair_trades [aapl_buy] =
        Inl (ValueError ''queue not empty, check for missing open/close txns,  initial trades 1'')"
    by code_simp
qed (auto simp: pair_trades_def queue_not_empty_def split: sum.splits if_splits)

theorem C4_unbalanced_raises_witness:
  "(\<exists>m. process_trades empty_matcher [aapl_buy] = Inr m \<and> m_bq m \<noteq> []
        \<and> pair_trades [aapl_buy] =
            Inl (ValueError (''queue not empty, check for missing open/close txns,  initial trades ''
                              @ str_nat (length [aapl_buy]))))
   \<and> (\<exists>ps m. pair_trades [buy_2023_01_01, sell_2024_01_01] = Inr ps
        \<and> process_trades empty_matcher [buy_2023_01_01, sell_2024_01_01] = Inr m
        \<and> m_sq m = [] \<and> m_bq m = [] \<and> ps = m_pairs m)"
proof -
  have "\<not> isl (process_trades empty_matcher [aapl_buy])" by code_simp
  then obtain m where m: "process_trades empty_matcher [aapl_buy] = Inr m"
    by (cases "process_trades empty_matcher [aapl_buy]") auto
  have "m_bq (projr (process_trades empty_matcher [aapl_buy])) \<noteq> []" by code_simp
  with m have ne: "m_bq m \<noteq> []" by simp
  have "\<not> isl (pair_trades [buy_2023_01_01, sell_2024_01_01])" by code_simp
  then obtain ps where ps: "pair_trades [buy_2023_01_01, sell_2024_01_01] = Inr ps"
    by (cases "pair_trades [buy_2023_01_01, sell_2024_01_01]") auto
  from C4_unbalanced_raises[of "[aapl_buy]" m ps] m ne
  have a: "pair_trades [aapl_buy] =
            Inl (ValueError (''queue not empty, check for missing open/close txns,  initial trades ''
                              @ str_nat (length [aapl_buy])))"
    by blast
  from C4_unbalanced_raises[of "[buy_2023_01_01, sell_2024_01_01]" m ps] ps
  have b: "\<exists>m. process_trades empty_matcher [buy_2023_01_01, sell_2024_01_01] = Inr m
        \<and> m_sq m = [] \<and> m_bq m = [] \<and> ps = m_pairs m"
    by blast
  from m ne a b ps show ?thesis by blast
qed

theorem C4_message_without_instrument:
  "pair_trades [aapl_buy] =
     Inl (ValueError ''queue not empty, check for missing open/close txns,  initial trades 1'')
   \<and> symbol aapl_buy = ''AAPL''
   \<and> \<not> sublist ''AAPL'' ''queue not empty, check for missing open/close txns,  initial trades 1''
   \<and> symbol msft_buy = ''MSFT''
   \<and> pair_trades [msft_buy] = pair_trades [aapl_buy]"
  by (intro conjI; code_simp)

section \<open>The remainder of a queued lot\<close>

text \<open>
  Claim C1, evaluated on \<open>two_lots\<close>. The purchase of 4 on the third is matched with the
  lot of 10 sold on the first; the remainder of 6 of that lot is put at the end of the
  sell queue, behind the lot of 5 sold on the second. The purchase of 5 on the fourth is
  then matched with the lot of the second, and the remainder of the lot of the first is
  closed last, on the fifth.
\<close>

theorem C1_remainder_put_at_end:
  "map_sum id (\<lambda>m. map (\<lambda>t. (date t, quantity t)) (m_sq m))
       (process_trades empty_matcher (take 2 two_lots))
     = Inr [(jan 1, - 10), (jan 2, - 5)]
   \<and> map_sum id (\<lambda>m. map (\<lambda>t. (date t, quantity t)) (m_sq m))
       (process_trades empty_matcher (take 3 two_lots))
     = Inr [(jan 2, - 5), (jan 1, - 6)]
   \<and> map_sum id (\<lambda>m. map (\<lambda>p. (date1 p, date2 p, pair_quantity p)) (m_pairs m))
       (process_trades empty_matcher two_lots)
     = Inr [(jan 1, jan 3, - 4), (jan 2, jan 4, - 5), (jan 1, jan 5, - 6)]"
  by (intro conjI; code_simp)

section \<open>The copy of a trade\<close>

text \<open>
  Claim C2, evaluated. \<open>copy\<close> keeps the date, the quantity, the option and the security
  type, and the symbol and the price of a trade whose symbol and price went through
  their setters; it does not keep \<open>fake\<close>. The closing trade that \<open>finish\<close> adds to
  \<open>open_group\<close> is marked; its copy is not, and neither are the remainder and the pair
  that \<open>match\<close> makes of it and the first open lot.
\<close>

theorem C2_copy_drops_fake:
  "fake (copy t) = False \<and> trade_type (copy t) = None
   \<and> date (copy t) = date t \<and> option (copy t) = option t \<and> quantity (copy t) = quantity t
   \<and> price (copy t) = \<bar>price t\<bar>
   \<and> fake open_group_close \<and> \<not> fake (copy open_group_close)
   \<and> map_sum id (\<lambda>(r, p). (map_option fake r, map_option quantity r, pair_fake p))
        (match open_group_close (hd open_group))
      = Inr (Some False, Some (- 2), False)"
proof -
  have "fake open_group_close" by code_simp
  moreover have "map_sum id (\<lambda>(r, p). (map_option fake r, map_option quantity r, pair_fake p))
        (match open_group_close (hd open_group))
      = Inr (Some False, Some (- 2), False)"
    by code_simp
  ultimately show ?thesis by (simp add: copy_simps)
qed

section \<open>The queues of the matcher\<close>

lemma symbol_set_symbol:
  "symbol (set_symbol v t) = (case SYMBOL_ALIAS (upper v) of Some a \<Rightarrow> a | None \<Rightarrow> upper v)"
  by (simp add: set_symbol_def Let_def)

















section \<open>When pair_trades returns\<close>




section \<open>Trades of quantity zero\<close>










section \<open>Closing an open option position\<close>












section \<open>The matcher on the store and the matcher on values\<close>

lemma new_TradePair_obj_refines:
  "map_sum id (pair_of h) (new_TradePair_obj h a b) = new_TradePair (h ! a) (h ! b)"
  by (auto simp: new_TradePair_obj_def new_TradePair_def pair_of_def Let_def split: sum.splits)

lemma new_TradePair_obj_in_store:
  "new_TradePair_obj h a b = Inr p \<Longrightarrow> a < length h \<Longrightarrow> b < length h \<Longrightarrow> pair_in_store h p"
  by (auto simp: new_TradePair_obj_def pair_in_store_def Let_def split: if_splits sum.splits)

lemma match_obj_store:
  assumes "self < length h" "trade < length h"
  shows "fst (match_obj h self trade) =
     (let remain_q = quantity (h ! self) + quantity (h ! trade) in
      if remain_q \<noteq> 0 then
        if remain_q * quantity (h ! self) > 0 then
          h @ [(copy (h ! self))\<lparr>quantity := remain_q\<rparr>,
               (copy (h ! self))\<lparr>quantity := quantity (h ! self) - remain_q\<rparr>]
        else
          h @ [(copy (h ! trade))\<lparr>quantity := remain_q\<rparr>,
               (copy (h ! trade))\<lparr>quantity := quantity (h ! trade) - remain_q\<rparr>]
      else h)"
  using assms
  by (simp add: match_obj_def Let_def copy_obj_def assign_quantity_def nth_append
      list_update_append split: prod.splits)

lemma abs_match_case:
  "abs_match h (case X of Inl e \<Rightarrow> Inl e | Inr p \<Rightarrow> Inr (r, p)) =
     (case map_sum id (pair_of h) X of Inl e \<Rightarrow> Inl e
      | Inr p \<Rightarrow> Inr (map_option ((!) h) r, p))"
  by (cases X) (simp_all add: abs_match_def)

lemma match_obj_refines:
  assumes "self < length h" "trade < length h"
  shows "abs_match (fst (match_obj h self trade)) (snd (match_obj h self trade))
           = match (h ! self) (h ! trade)"
  using assms
  by (auto simp: match_obj_def match_def Let_def copy_obj_def assign_quantity_def nth_append
      list_update_append abs_match_case new_TradePair_obj_refines
      split: prod.splits sum.splits)

lemma match_obj_in_store:
  assumes "self < length h" "trade < length h"
    and "match_obj h self trade = (h', Inr (r, p))"
  shows "(\<forall>x\<in>set_option r. x < length h') \<and> pair_in_store h' p"
  using assms
  by (auto simp: match_obj_def Let_def copy_obj_def assign_quantity_def
      split: if_splits prod.splits sum.splits dest!: new_TradePair_obj_in_store)

lemma match_obj_prefix:
  assumes "self < length h" "trade < length h"
  shows "prefix h (fst (match_obj h self trade))"
  unfolding match_obj_store[OF assms] by (simp add: Let_def)

lemma prefix_nth_eq: "prefix h h' \<Longrightarrow> x < length h \<Longrightarrow> h' ! x = h ! x"
  by (auto simp: prefix_def nth_append)

lemma prefix_less: "prefix h h' \<Longrightarrow> x < length h \<Longrightarrow> x < length h'"
  using prefix_length_le[of h h'] by simp

lemma prefix_refs:
  "prefix h h' \<Longrightarrow> refs_in_store h q \<Longrightarrow> refs_in_store h' q \<and> map ((!) h') q = map ((!) h) q"
  by (auto simp: refs_in_store_def list_all_iff prefix_nth_eq prefix_less)

lemma prefix_pair:
  "prefix h h' \<Longrightarrow> pair_in_store h p \<Longrightarrow> pair_in_store h' p \<and> pair_of h' p = pair_of h p"
  by (auto simp: pair_in_store_def pair_of_def prefix_nth_eq prefix_less)

lemma prefix_pairs:
  "prefix h h' \<Longrightarrow> list_all (pair_in_store h) ps
     \<Longrightarrow> list_all (pair_in_store h') ps \<and> map (pair_of h') ps = map (pair_of h) ps"
  by (induction ps) (auto dest: prefix_pair)

lemma match_queue_obj_refines:
  "trade < length h \<Longrightarrow> refs_in_store h q \<Longrightarrow> list_all (pair_in_store h) ps
   \<Longrightarrow> \<exists>h' res. match_queue_obj sg h trade q ps = (h', res) \<and> prefix h h'
        \<and> abs_loop h' res = match_queue sg (h ! trade) (map ((!) h) q) (map (pair_of h) ps)
        \<and> (\<forall>r q' ps'. res = Inr (r, q', ps') \<longrightarrow>
              (\<forall>x\<in>set_option r. x < length h') \<and> refs_in_store h' q'
              \<and> list_all (pair_in_store h') ps')"
proof (induction q arbitrary: h trade ps)
  case Nil
  then show ?case by (simp add: abs_loop_def refs_in_store_def)
next
  case (Cons qt q)
  from Cons.prems(2) have qt: "qt < length h" and q: "refs_in_store h q"
    by (simp_all add: refs_in_store_def)
  obtain h1 res1 where m: "match_obj h trade qt = (h1, res1)" by (cases "match_obj h trade qt")
  from match_obj_prefix[OF Cons.prems(1) qt] m have p1: "prefix h h1" by simp
  from match_obj_refines[OF Cons.prems(1) qt] m
  have a1: "match (h ! trade) (h ! qt) = abs_match h1 res1" by simp
  from prefix_refs[OF p1 q] have q1: "refs_in_store h1 q" "map ((!) h1) q = map ((!) h) q"
    by simp_all
  from prefix_pairs[OF p1 Cons.prems(3)]
  have ps1: "list_all (pair_in_store h1) ps" "map (pair_of h1) ps = map (pair_of h) ps"
    by simp_all
  show ?case
  proof (cases res1)
    case (Inl e)
    with m p1 show ?thesis by (simp add: a1 abs_match_def abs_loop_def)
  next
    case (Inr rp)
    obtain remain pair where rp: "rp = (remain, pair)" by (cases rp)
    from match_obj_in_store[OF Cons.prems(1) qt] m Inr rp
    have v: "\<forall>x\<in>set_option remain. x < length h1" "pair_in_store h1 pair" by simp_all
    from a1 Inr rp have mv: "match (h ! trade) (h ! qt)
        = Inr (map_option ((!) h1) remain, pair_of h1 pair)"
      by (simp add: abs_match_def)
    show ?thesis
    proof (cases remain)
      case None
      with m Inr rp mv p1 q1 ps1 v show ?thesis
        by (simp add: abs_loop_def)
    next
      case (Some r)
      with v have r: "r < length h1" by simp
      show ?thesis
      proof (cases "sg * quantity (h1 ! r) < 0")
        case True
        with m Inr rp mv p1 q1 ps1 v Some r show ?thesis
          by (simp add: abs_loop_def refs_in_store_def)
      next
        case False
        from ps1(1) v(2) have ps2: "list_all (pair_in_store h1) (ps @ [pair])" by simp
        from Cons.IH[OF r q1(1) ps2] obtain h' res where
          ih: "match_queue_obj sg h1 r q (ps @ [pair]) = (h', res)" "prefix h1 h'"
            "abs_loop h' res = match_queue sg (h1 ! r) (map ((!) h1) q) (map (pair_of h1) (ps @ [pair]))"
            "\<forall>r q' ps'. res = Inr (r, q', ps') \<longrightarrow>
              (\<forall>x\<in>set_option r. x < length h') \<and> refs_in_store h' q'
              \<and> list_all (pair_in_store h') ps'"
          by blast
        from m Inr rp Some False ih(1)
        have step: "match_queue_obj sg h trade (qt # q) ps = (h', res)" by simp
        have val: "match_queue sg (h ! trade) (map ((!) h) (qt # q)) (map (pair_of h) ps)
           = match_queue sg (h1 ! r) (map ((!) h1) q) (map (pair_of h1) (ps @ [pair]))"
          unfolding q1(2) using mv Some False by (simp add: ps1(2))
        from p1 ih(2) have "prefix h h'" by (rule prefix_order.trans)
        with step val ih(3,4) show ?thesis by simp
      qed
    qed
  qed
qed

lemma process_trade_obj_refines:
  assumes t: "trade < length h" and m: "matcher_in_store h m"
  shows "\<exists>h' res. process_trade_obj h m trade = (h', res) \<and> prefix h h'
     \<and> map_sum id (abs_matcher h') res = process_trade (abs_matcher h m) (h ! trade)
     \<and> (\<forall>m'. res = Inr m' \<longrightarrow> matcher_in_store h' m')"
proof -
  from m have b: "refs_in_store h (o_bq m)" and s: "refs_in_store h (o_sq m)"
    and p: "list_all (pair_in_store h) (o_pairs m)"
    by (simp_all add: matcher_in_store_def)
  show ?thesis
  proof (cases "0 < quantity (h ! trade)")
    case True
    from match_queue_obj_refines[OF t s p, of 1] obtain h' res where
      r: "match_queue_obj 1 h trade (o_sq m) (o_pairs m) = (h', res)" "prefix h h'"
        "abs_loop h' res = match_queue 1 (h ! trade) (map ((!) h) (o_sq m)) (map (pair_of h) (o_pairs m))"
        "\<forall>r q' ps'. res = Inr (r, q', ps') \<longrightarrow>
              (\<forall>x\<in>set_option r. x < length h') \<and> refs_in_store h' q'
              \<and> list_all (pair_in_store h') ps'"
      by blast
    from prefix_refs[OF r(2) b] have b': "refs_in_store h' (o_bq m)"
      "map ((!) h') (o_bq m) = map ((!) h) (o_bq m)" by simp_all
    show ?thesis
    proof (cases res)
      case (Inl e)
      with True r(1,2) r(3)[symmetric] show ?thesis
        by (simp add: process_trade_obj_def process_trade_def match_sell_queue_eq
            abs_matcher_def abs_loop_def)
    next
      case (Inr x)
      obtain rr q' ps' where x: "x = (rr, q', ps')" by (cases x)
      from r(4) Inr x have v: "\<forall>x\<in>set_option rr. x < length h'" "refs_in_store h' q'"
        "list_all (pair_in_store h') ps'" by simp_all
      from True r(1,2) r(3)[symmetric] Inr x b' v show ?thesis
        by (cases rr)
          (simp_all add: process_trade_obj_def process_trade_def match_sell_queue_eq
            abs_matcher_def abs_loop_def matcher_in_store_def put_def put_ref_def
            refs_in_store_def)
    qed
  next
    case False
    from match_queue_obj_refines[OF t b p, of "- 1"] obtain h' res where
      r: "match_queue_obj (- 1) h trade (o_bq m) (o_pairs m) = (h', res)" "prefix h h'"
        "abs_loop h' res = match_queue (- 1) (h ! trade) (map ((!) h) (o_bq m)) (map (pair_of h) (o_pairs m))"
        "\<forall>r q' ps'. res = Inr (r, q', ps') \<longrightarrow>
              (\<forall>x\<in>set_option r. x < length h') \<and> refs_in_store h' q'
              \<and> list_all (pair_in_store h') ps'"
      by blast
    from prefix_refs[OF r(2) s] have s': "refs_in_store h' (o_sq m)"
      "map ((!) h') (o_sq m) = map ((!) h) (o_sq m)" by simp_all
    show ?thesis
    proof (cases res)
      case (Inl e)
      with False r(1,2) r(3)[symmetric] show ?thesis
        by (simp add: process_trade_obj_def process_trade_def match_buy_queue_eq
            abs_matcher_def abs_loop_def)
    next
      case (Inr x)
      obtain rr q' ps' where x: "x = (rr, q', ps')" by (cases x)
      from r(4) Inr x have v: "\<forall>x\<in>set_option rr. x < length h'" "refs_in_store h' q'"
        "list_all (pair_in_store h') ps'" by simp_all
      from False r(1,2) r(3)[symmetric] Inr x s' v show ?thesis
        by (cases rr)
          (simp_all add: process_trade_obj_def process_trade_def match_buy_queue_eq
            abs_matcher_def abs_loop_def matcher_in_store_def put_def put_ref_def
            refs_in_store_def)
    qed
  qed
qed

lemma abs_matcher_prefix:
  "prefix h h' \<Longrightarrow> matcher_in_store h m
     \<Longrightarrow> matcher_in_store h' m \<and> abs_matcher h' m = abs_matcher h m"
  using prefix_refs[of h h' "o_bq m"] prefix_refs[of h h' "o_sq m"]
    prefix_pairs[of h h' "o_pairs m"]
  by (simp add: matcher_in_store_def abs_matcher_def)

lemma process_trades_obj_refines:
  "refs_in_store h trades \<Longrightarrow> matcher_in_store h m
   \<Longrightarrow> \<exists>h' res. process_trades_obj h m trades = (h', res) \<and> prefix h h'
     \<and> map_sum id (abs_matcher h') res = process_trades (abs_matcher h m) (map ((!) h) trades)
     \<and> (\<forall>m'. res = Inr m' \<longrightarrow> matcher_in_store h' m')"
proof (induction trades arbitrary: h m)
  case Nil
  then show ?case by simp
next
  case (Cons t ts)
  from Cons.prems(1) have t: "t < length h" and ts: "refs_in_store h ts"
    by (simp_all add: refs_in_store_def)
  from process_trade_obj_refines[OF t Cons.prems(2)] obtain h1 res1 where
    s: "process_trade_obj h m t = (h1, res1)" "prefix h h1"
      "process_trade (abs_matcher h m) (h ! t) = map_sum id (abs_matcher h1) res1"
      "\<forall>m'. res1 = Inr m' \<longrightarrow> matcher_in_store h1 m'"
    by metis
  show ?case
  proof (cases res1)
    case (Inl e)
    with s show ?thesis by simp
  next
    case (Inr m1)
    with s(4) have m1: "matcher_in_store h1 m1" by simp
    from prefix_refs[OF s(2) ts] have ts1: "refs_in_store h1 ts"
      "map ((!) h1) ts = map ((!) h) ts" by simp_all
    from Cons.IH[OF ts1(1) m1] obtain h' res where
      ih: "process_trades_obj h1 m1 ts = (h', res)" "prefix h1 h'"
        "map_sum id (abs_matcher h') res = process_trades (abs_matcher h1 m1) (map ((!) h1) ts)"
        "\<forall>m'. res = Inr m' \<longrightarrow> matcher_in_store h' m'"
      by blast
    from s(2) ih(2) have pre: "prefix h h'" by (rule prefix_order.trans)
    from s(1) Inr ih(1) have step: "process_trades_obj h m (t # ts) = (h', res)" by simp
    from s(3) Inr have "process_trades (abs_matcher h m) (map ((!) h) (t # ts))
        = process_trades (abs_matcher h1 m1) (map ((!) h) ts)" by simp
    with ih(3) have val: "map_sum id (abs_matcher h') res
        = process_trades (abs_matcher h m) (map ((!) h) (t # ts))"
      unfolding ts1(2) by (rule trans[OF _ sym])
    from step pre val ih(4) show ?thesis by blast
  qed
qed

lemma pair_trades_obj_refines:
  assumes "refs_in_store h trades"
  shows "\<exists>h' res. pair_trades_obj h trades = (h', res) \<and> prefix h h'
     \<and> map_sum id (map (pair_of h')) res = pair_trades (map ((!) h) trades)
     \<and> (\<forall>ps. res = Inr ps \<longrightarrow> list_all (pair_in_store h') ps)"
proof -
  let ?m0 = "\<lparr>o_bq = [], o_sq = [], o_pairs = []\<rparr>"
  have m0: "matcher_in_store h ?m0" by (simp add: matcher_in_store_def refs_in_store_def)
  have a0: "abs_matcher h ?m0 = empty_matcher" by (simp add: abs_matcher_def empty_matcher_def)
  from process_trades_obj_refines[OF assms m0] obtain h' res where
    r: "process_trades_obj h ?m0 trades = (h', res)" "prefix h h'"
      "process_trades empty_matcher (map ((!) h) trades) = map_sum id (abs_matcher h') res"
      "\<forall>m'. res = Inr m' \<longrightarrow> matcher_in_store h' m'"
    unfolding a0 by metis
  show ?thesis
  proof (cases res)
    case (Inl e)
    with r show ?thesis by (simp add: pair_trades_obj_def pair_trades_def)
  next
    case (Inr m)
    with r show ?thesis
      by (simp add: pair_trades_obj_def pair_trades_def abs_matcher_def matcher_in_store_def)
  qed
qed

lemma option_pairs_loop_obj_refines:
  "list_all (\<lambda>(k, ts). refs_in_store h ts) items \<Longrightarrow> list_all (pair_in_store h) acc
   \<Longrightarrow> \<exists>h' res. option_pairs_loop_obj h items acc = (h', res) \<and> prefix h h'
     \<and> map_sum id (map (pair_of h')) res
         = option_pairs_loop (map (\<lambda>(k, ts). (k, map ((!) h) ts)) items) (map (pair_of h) acc)
     \<and> (\<forall>ps. res = Inr ps \<longrightarrow> list_all (pair_in_store h') ps)"
proof (induction items arbitrary: h acc)
  case Nil
  then show ?case by simp
next
  case (Cons it items)
  obtain k ts where it: "it = (k, ts)" by (cases it)
  from Cons.prems(1) it have ts: "refs_in_store h ts"
    and items: "list_all (\<lambda>(k, ts). refs_in_store h ts) items" by simp_all
  from pair_trades_obj_refines[OF ts] obtain h1 res1 where
    s: "pair_trades_obj h ts = (h1, res1)" "prefix h h1"
      "pair_trades (map ((!) h) ts) = map_sum id (map (pair_of h1)) res1"
      "\<forall>ps. res1 = Inr ps \<longrightarrow> list_all (pair_in_store h1) ps"
    by metis
  show ?case
  proof (cases res1)
    case (Inl e)
    with s it show ?thesis by simp
  next
    case (Inr ps)
    with s(4) have ps: "list_all (pair_in_store h1) ps" by simp
    from prefix_pairs[OF s(2) Cons.prems(2)] have acc1: "list_all (pair_in_store h1) acc"
      "map (pair_of h1) acc = map (pair_of h) acc" by simp_all
    have items1: "list_all (\<lambda>(k, ts). refs_in_store h1 ts) items"
      and eq1: "map (\<lambda>(k, ts). (k, map ((!) h1) ts)) items
                  = map (\<lambda>(k, ts). (k, map ((!) h) ts)) items"
      using items prefix_refs[OF s(2)] by (auto simp: list_all_iff)
    from acc1(1) ps have acc2: "list_all (pair_in_store h1) (acc @ ps)" by simp
    from Cons.IH[OF items1 acc2] obtain h' res where
      ih: "option_pairs_loop_obj h1 items (acc @ ps) = (h', res)" "prefix h1 h'"
        "map_sum id (map (pair_of h')) res
           = option_pairs_loop (map (\<lambda>(k, ts). (k, map ((!) h1) ts)) items)
               (map (pair_of h1) (acc @ ps))"
        "\<forall>ps. res = Inr ps \<longrightarrow> list_all (pair_in_store h') ps"
      by blast
    from s(2) ih(2) have pre: "prefix h h'" by (rule prefix_order.trans)
    from s(1) Inr it ih(1) have step: "option_pairs_loop_obj h (it # items) acc = (h', res)"
      by simp
    from s(3) Inr it have "option_pairs_loop (map (\<lambda>(k, ts). (k, map ((!) h) ts)) (it # items))
          (map (pair_of h) acc)
        = option_pairs_loop (map (\<lambda>(k, ts). (k, map ((!) h) ts)) items)
            (map (pair_of h1) (acc @ ps))"
      by (simp add: acc1(2))
    with ih(3) have val: "map_sum id (map (pair_of h')) res
        = option_pairs_loop (map (\<lambda>(k, ts). (k, map ((!) h) ts)) (it # items))
            (map (pair_of h) acc)"
      unfolding eq1 by (rule trans[OF _ sym])
    from step pre val ih(4) show ?thesis by blast
  qed
qed

lemma prefix_result:
  "prefix h h' \<Longrightarrow> \<forall>ps. res = Inr ps \<longrightarrow> list_all (pair_in_store h) ps
     \<Longrightarrow> map_sum id (map (pair_of h')) res = map_sum id (map (pair_of h)) res"
  by (cases res) (simp_all add: prefix_pairs)

section \<open>The queries change nothing\<close>

lemma pair_trades_obj_twice:
  assumes r: "refs_in_store h ts"
    and a: "pair_trades_obj h ts = (h1, res1)" and b: "pair_trades_obj h1 ts = (h2, res2)"
  shows "prefix h h1 \<and> prefix h1 h2
     \<and> map_sum id (map (pair_of h1)) res1 = pair_trades (map ((!) h) ts)
     \<and> map_sum id (map (pair_of h2)) res2 = map_sum id (map (pair_of h1)) res1
     \<and> map_sum id (map (pair_of h2)) res1 = map_sum id (map (pair_of h1)) res1"
proof -
  from pair_trades_obj_refines[OF r] a
  have 1: "prefix h h1" "map_sum id (map (pair_of h1)) res1 = pair_trades (map ((!) h) ts)"
    "\<forall>ps. res1 = Inr ps \<longrightarrow> list_all (pair_in_store h1) ps" by auto
  from prefix_refs[OF 1(1) r] have r1: "refs_in_store h1 ts" "map ((!) h1) ts = map ((!) h) ts"
    by simp_all
  from pair_trades_obj_refines[OF r1(1)] b
  have 2: "prefix h1 h2" "map_sum id (map (pair_of h2)) res2 = pair_trades (map ((!) h1) ts)"
    by auto
  from prefix_result[OF 2(1) 1(3)] 1 2 r1(2) show ?thesis by simp
qed

lemma option_pairs_loop_obj_twice:
  assumes r: "list_all (\<lambda>(k, ts). refs_in_store h ts) items"
    and a: "option_pairs_loop_obj h items [] = (g1, opt1)"
    and b: "option_pairs_loop_obj g1 items [] = (g2, opt2)"
  shows "prefix h g1 \<and> prefix g1 g2
     \<and> map_sum id (map (pair_of g1)) opt1
         = option_pairs_loop (map (\<lambda>(k, ts). (k, map ((!) h) ts)) items) []
     \<and> map_sum id (map (pair_of g2)) opt2 = map_sum id (map (pair_of g1)) opt1
     \<and> map_sum id (map (pair_of g2)) opt1 = map_sum id (map (pair_of g1)) opt1"
proof -
  from option_pairs_loop_obj_refines[OF r, of "[]"] a
  have 1: "prefix h g1" "map_sum id (map (pair_of g1)) opt1
         = option_pairs_loop (map (\<lambda>(k, ts). (k, map ((!) h) ts)) items) []"
    "\<forall>ps. opt1 = Inr ps \<longrightarrow> list_all (pair_in_store g1) ps" by auto
  have r1: "list_all (\<lambda>(k, ts). refs_in_store g1 ts) items"
    and eq1: "map (\<lambda>(k, ts). (k, map ((!) g1) ts)) items
                  = map (\<lambda>(k, ts). (k, map ((!) h) ts)) items"
    using r prefix_refs[OF 1(1)] by (auto simp: list_all_iff)
  from option_pairs_loop_obj_refines[OF r1, of "[]"] b
  have 2: "prefix g1 g2" "map_sum id (map (pair_of g2)) opt2
         = option_pairs_loop (map (\<lambda>(k, ts). (k, map ((!) g1) ts)) items) []"
    by auto
  from prefix_result[OF 2(1) 1(3)] 1 2 eq1 show ?thesis by simp
qed

text \<open>
  Claim C8. On a ledger whose trades are objects of the store \<open>h\<close>, two calls of
  \<open>stock_pairs\<close> in succession, and likewise two calls of \<open>option_pairs\<close>, leave every
  object that was in the store as it was (the store only grows, by the copies that
  \<open>match\<close> makes), and the second call returns what the first call returned: the same
  error, or pairs with the same attributes and the same trades behind their references.
  The result of the first call is not changed by the second, and it is what
  \<open>pair_trades\<close> computes from the trades as values. The list of trades itself is only
  read: the source iterates over it and takes its length.
\<close>

theorem C8_queries_pure:
  assumes "refs_in_store h (obj_stock_trades self)"
    and "list_all (\<lambda>(k, ts). refs_in_store h ts) (obj_opt_trade_map self)"
    and "stock_pairs_obj h self = (h1, res1)" and "stock_pairs_obj h1 self = (h2, res2)"
    and "option_pairs_obj h self = (g1, opt1)" and "option_pairs_obj g1 self = (g2, opt2)"
  shows "take (length h) h2 = h \<and> take (length h) g2 = h
     \<and> map_sum id (map (pair_of h2)) res2 = map_sum id (map (pair_of h1)) res1
     \<and> map_sum id (map (pair_of h2)) res1 = map_sum id (map (pair_of h1)) res1
     \<and> map_sum id (map (pair_of h1)) res1 = pair_trades (map ((!) h) (obj_stock_trades self))
     \<and> map_sum id (map (pair_of g2)) opt2 = map_sum id (map (pair_of g1)) opt1
     \<and> map_sum id (map (pair_of g2)) opt1 = map_sum id (map (pair_of g1)) opt1
     \<and> map_sum id (map (pair_of g1)) opt1
         = option_pairs_loop
             (map (\<lambda>(k, ts). (k, map ((!) h) ts)) (obj_opt_trade_map self)) []"
proof -
  note s = pair_trades_obj_twice[OF assms(1) assms(3)[unfolded stock_pairs_obj_def]
      assms(4)[unfolded stock_pairs_obj_def]]
  note t = option_pairs_loop_obj_twice[OF assms(2) assms(5)[unfolded option_pairs_obj_def]
      assms(6)[unfolded option_pairs_obj_def]]
  from s have "prefix h h2" by (meson prefix_order.trans)
  then have a: "take (length h) h2 = h" by (auto simp: prefix_def)
  from t have "prefix h g2" by (meson prefix_order.trans)
  then have b: "take (length h) g2 = h" by (auto simp: prefix_def)
  from a b s t show ?thesis by simp
qed

theorem C8_queries_pure_witness:
  "refs_in_store example_store (obj_stock_trades example_ledger)
   \<and> list_all (\<lambda>(k, ts). refs_in_store example_store ts) (obj_opt_trade_map example_ledger)
   \<and> (\<exists>h1 res1 h2 res2.
         stock_pairs_obj example_store example_ledger = (h1, res1)
         \<and> stock_pairs_obj h1 example_ledger = (h2, res2)
         \<and> length example_store < length h1
         \<and> map_sum id (map (\<lambda>p. (obj_date1 p, obj_date2 p, obj_quantity p))) res1
             = Inr [(jan 1, jan 3, - 4), (jan 2, jan 4, - 5), (jan 1, jan 5, - 6)]
         \<and> take (length example_store) h2 = example_store
         \<and> map_sum id (map (pair_of h2)) res2 = map_sum id (map (pair_of h1)) res1)
   \<and> (\<exists>g1 opt1 g2 opt2.
         option_pairs_obj example_store example_ledger = (g1, opt1)
         \<and> option_pairs_obj g1 example_ledger = (g2, opt2)
         \<and> map_sum id (map (\<lambda>p. (obj_profit p, obj_fake p))) opt1 = Inr [(- 6, True)]
         \<and> take (length example_store) g2 = example_store
         \<and> map_sum id (map (pair_of g2)) opt2 = map_sum id (map (pair_of g1)) opt1)"
proof -
  have r: "refs_in_store example_store (obj_stock_trades example_ledger)" by code_simp
  have q: "list_all (\<lambda>(k, ts). refs_in_store example_store ts) (obj_opt_trade_map example_ledger)"
    by code_simp
  obtain h1 res1 where s1: "stock_pairs_obj example_store example_ledger = (h1, res1)"
    by (cases "stock_pairs_obj example_store example_ledger")
  obtain h2 res2 where s2: "stock_pairs_obj h1 example_ledger = (h2, res2)"
    by (cases "stock_pairs_obj h1 example_ledger")
  obtain g1 opt1 where o1: "option_pairs_obj example_store example_ledger = (g1, opt1)"
    by (cases "option_pairs_obj example_store example_ledger")
  obtain g2 opt2 where o2: "option_pairs_obj g1 example_ledger = (g2, opt2)"
    by (cases "option_pairs_obj g1 example_ledger")
  have "length example_store < length (fst (stock_pairs_obj example_store example_ledger))"
    by code_simp
  with s1 have l: "length example_store < length h1" by simp
  have "map_sum id (map (\<lambda>p. (obj_date1 p, obj_date2 p, obj_quantity p)))
          (snd (stock_pairs_obj example_store example_ledger))
        = Inr [(jan 1, jan 3, - 4), (jan 2, jan 4, - 5), (jan 1, jan 5, - 6)]"
    by code_simp
  with s1 have v: "map_sum id (map (\<lambda>p. (obj_date1 p, obj_date2 p, obj_quantity p))) res1
        = Inr [(jan 1, jan 3, - 4), (jan 2, jan 4, - 5), (jan 1, jan 5, - 6)]" by simp
  have "map_sum id (map (\<lambda>p. (obj_profit p, obj_fake p)))
          (snd (option_pairs_obj example_store example_ledger)) = Inr [(- 6, True)]"
    by code_simp
  with o1 have w: "map_sum id (map (\<lambda>p. (obj_profit p, obj_fake p))) opt1 = Inr [(- 6, True)]"
    by simp
  note c = C8_queries_pure[OF r q s1 s2 o1 o2]
  from c s1 s2 l v have a: "\<exists>h1 res1 h2 res2.
         stock_pairs_obj example_store example_ledger = (h1, res1)
         \<and> stock_pairs_obj h1 example_ledger = (h2, res2)
         \<and> length example_store < length h1
         \<and> map_sum id (map (\<lambda>p. (obj_date1 p, obj_date2 p, obj_quantity p))) res1
             = Inr [(jan 1, jan 3, - 4), (jan 2, jan 4, - 5), (jan 1, jan 5, - 6)]
         \<and> take (length example_store) h2 = example_store
         \<and> map_sum id (map (pair_of h2)) res2 = map_sum id (map (pair_of h1)) res1"
    by blast
  from c o1 o2 w have b: "\<exists>g1 opt1 g2 opt2.
         option_pairs_obj example_store example_ledger = (g1, opt1)
         \<and> option_pairs_obj g1 example_ledger = (g2, opt2)
         \<and> map_sum id (map (\<lambda>p. (obj_profit p, obj_fake p))) opt1 = Inr [(- 6, True)]
         \<and> take (length example_store) g2 = example_store
         \<and> map_sum id (map (pair_of g2)) opt2 = map_sum id (map (pair_of g1)) opt1"
    by blast
  from r q a b show ?thesis by blast
qed

end
